theory Spec2Isabelle
  imports Main "HOL-Library.Product_Lexorder" "HOL-Library.Multiset"
begin

section \<open>Values of the export document\<close>

text \<open>
  The converter works on what \<^verbatim>\<open>json.load\<close> returns: \<^verbatim>\<open>None\<close>, booleans, integers,
  floats, strings, lists and dictionaries. A dictionary is an association list read
  through its first binding of a key. A float is carried as mantissa and binary exponent;
  the program only ever tests a float for truth or prints it. Text is a \<^typ>\<open>string\<close>
  that holds the UTF-8 bytes of the characters, which is what the written document holds;
  a character outside ASCII takes two to four bytes, a lead byte and continuation bytes.
  Text with a lone surrogate, which has no UTF-8 form, is not covered.
\<close>

datatype json =
    JNull
  | JBool bool
  | JInt int
  | JFloat int int
  | JStr string
  | JList "json list"
  | JDict "(string \<times> json) list"

datatype py_error =
    TypeError
  | AttributeError
  | ValueError
  | KeyError
  | FileNotFoundError
  | FileExistsError
  | NotADirectoryError
  | IsADirectoryError
  | OSError

type_synonym 'a result = "py_error + 'a"

definition py_bind :: "'a result \<Rightarrow> ('a \<Rightarrow> 'b result) \<Rightarrow> 'b result" where
  "py_bind r f = (case r of Inl e \<Rightarrow> Inl e | Inr x \<Rightarrow> f x)"

text \<open>Python's truth value of an object, as \<^verbatim>\<open>if x:\<close>, \<^verbatim>\<open>not x\<close> and \<^verbatim>\<open>x or y\<close> test it.\<close>

fun truthy :: "json \<Rightarrow> bool" where
  "truthy JNull = False"
| "truthy (JBool b) = b"
| "truthy (JInt n) = (n \<noteq> 0)"
| "truthy (JFloat m e) = (m \<noteq> 0)"
| "truthy (JStr s) = (s \<noteq> [])"
| "truthy (JList xs) = (xs \<noteq> [])"
| "truthy (JDict d) = (d \<noteq> [])"

text \<open>\<^verbatim>\<open>x or y\<close>.\<close>

definition py_or :: "json \<Rightarrow> json \<Rightarrow> json" where
  "py_or x y = (if truthy x then x else y)"

text \<open>\<^verbatim>\<open>d.get(k, default)\<close> and \<^verbatim>\<open>d.get(k)\<close> on a dictionary.\<close>

definition dict_get_default :: "(string \<times> json) list \<Rightarrow> string \<Rightarrow> json \<Rightarrow> json" where
  "dict_get_default d k dflt = (case map_of d k of None \<Rightarrow> dflt | Some v \<Rightarrow> v)"

definition dict_get :: "(string \<times> json) list \<Rightarrow> string \<Rightarrow> json" where
  "dict_get d k = dict_get_default d k JNull"

text \<open>\<^verbatim>\<open>d[k]\<close>: a missing key raises \<^verbatim>\<open>KeyError\<close>, which nothing in this program catches.\<close>

definition dict_item :: "(string \<times> json) list \<Rightarrow> string \<Rightarrow> json result" where
  "dict_item d k = (case map_of d k of None \<Rightarrow> Inl KeyError | Some v \<Rightarrow> Inr v)"

text \<open>
  A message is used through \<^verbatim>\<open>m.get\<close> only; on anything but a dictionary the attribute
  lookup raises \<^verbatim>\<open>AttributeError\<close>.
\<close>

definition as_dict :: "json \<Rightarrow> (string \<times> json) list result" where
  "as_dict m = (case m of JDict d \<Rightarrow> Inr d | _ \<Rightarrow> Inl AttributeError)"

section \<open>Library functions\<close>

text \<open>\<^verbatim>\<open>html.escape(s)\<close> with its default \<^verbatim>\<open>quote=True\<close>.\<close>

definition esc_char :: "char \<Rightarrow> string" where
  "esc_char c =
     (if c = CHR ''&'' then ''&amp;''
      else if c = CHR ''<'' then ''&lt;''
      else if c = CHR ''>'' then ''&gt;''
      else if c = CHR 0x22 then ''&quot;''
      else if c = CHR 0x27 then ''&#x27;''
      else [c])"

definition html_escape_str :: "string \<Rightarrow> string" where
  "html_escape_str s = concat (map esc_char s)"

text \<open>
  \<^verbatim>\<open>html.escape\<close> calls \<^verbatim>\<open>s.replace\<close>, so any argument that is not a string raises
  \<^verbatim>\<open>AttributeError\<close>.
\<close>

definition html_escape :: "json \<Rightarrow> string result" where
  "html_escape v = (case v of JStr s \<Rightarrow> Inr (html_escape_str s) | _ \<Rightarrow> Inl AttributeError)"

text \<open>A calendar value of \<^verbatim>\<open>datetime\<close>; \<open>dt_offset\<close> is the UTC offset in microseconds of an
  aware value and \<open>None\<close> for a naive one.\<close>

record datetime =
  dt_year :: nat
  dt_month :: nat
  dt_day :: nat
  dt_hour :: nat
  dt_minute :: nat
  dt_second :: nat
  dt_micro :: nat
  dt_offset :: "int option"

text \<open>
  The parts of the standard library whose behaviour is fixed outside this program are
  parameters of the model: the two timestamp parsers on strings (\<open>None\<close> where the
  library raises \<^verbatim>\<open>ValueError\<close>); \<^verbatim>\<open>str\<close> on floats, lists and dictionaries; whether the
  C library behind \<^verbatim>\<open>strftime\<close> pads the year of \<^verbatim>\<open>%Y\<close> with zeros to four digits (glibc
  does not); and \<^verbatim>\<open>lower\<close>, \<^verbatim>\<open>upper\<close> and \<^verbatim>\<open>strip\<close> on strings that hold a character outside
  ASCII, where they follow the Unicode tables.
\<close>

record pylib =
  lib_fromisoformat :: "string \<Rightarrow> datetime option"
  lib_strptime :: "string \<Rightarrow> datetime option"
  lib_repr :: "json \<Rightarrow> string"
  lib_year_padded :: bool
  lib_lower :: "string \<Rightarrow> string"
  lib_upper :: "string \<Rightarrow> string"
  lib_strip :: "string \<Rightarrow> string"

text \<open>Decimal digits of a natural number, and \<^verbatim>\<open>str\<close> of an integer.\<close>

definition digit_char :: "nat \<Rightarrow> char" where
  "digit_char d = char_of (48 + d)"

function str_nat :: "nat \<Rightarrow> string" where
  "str_nat n = (if n < 10 then [digit_char n] else str_nat (n div 10) @ [digit_char (n mod 10)])"
  by pat_completeness auto
termination
  by (relation "measure (\<lambda>n. n)") auto

declare str_nat.simps [simp del]

definition str_int :: "int \<Rightarrow> string" where
  "str_int i = (if i < 0 then ''-'' @ str_nat (nat (- i)) else str_nat (nat i))"

text \<open>\<^verbatim>\<open>str(x)\<close>.\<close>

definition py_str :: "pylib \<Rightarrow> json \<Rightarrow> string" where
  "py_str L v =
     (case v of
        JStr s \<Rightarrow> s
      | JNull \<Rightarrow> ''None''
      | JBool b \<Rightarrow> (if b then ''True'' else ''False'')
      | JInt i \<Rightarrow> str_int i
      | _ \<Rightarrow> lib_repr L v)"

section \<open>Text-field renderer\<close>

text \<open>One pass of the loop body of \<^verbatim>\<open>parse_text_field\<close> over a fragment.\<close>

definition render_part :: "pylib \<Rightarrow> json \<Rightarrow> string result" where
  "render_part L part =
     (case part of
        JStr s \<Rightarrow> Inr (html_escape_str s)
      | JDict d \<Rightarrow>
          (let t = dict_get d ''type'';
               txt = dict_get_default d ''text'' (JStr '''')
           in if t = JStr ''link'' \<and> truthy (dict_get d ''href'') then
                py_bind (dict_item d ''href'') (\<lambda>h.
                py_bind (html_escape h) (\<lambda>href.
                py_bind (html_escape txt) (\<lambda>label.
                  Inr (''<a href=\"'' @ href @ ''\" target=\"_blank\">'' @ label @ ''</a>''))))
              else if t = JStr ''bot_command'' then html_escape txt
              else html_escape txt)
      | _ \<Rightarrow> Inr (html_escape_str (py_str L part)))"

fun render_parts :: "pylib \<Rightarrow> json list \<Rightarrow> string list result" where
  "render_parts L [] = Inr []"
| "render_parts L (part # rest) =
     py_bind (render_part L part) (\<lambda>s.
     py_bind (render_parts L rest) (\<lambda>ss. Inr (s # ss)))"

definition parse_text_field :: "pylib \<Rightarrow> json \<Rightarrow> string result" where
  "parse_text_field L text_field =
     (case text_field of
        JNull \<Rightarrow> Inr ''''
      | JStr s \<Rightarrow> Inr (html_escape_str s)
      | JList parts \<Rightarrow> py_bind (render_parts L parts) (\<lambda>ss. Inr (concat ss))
      | _ \<Rightarrow> Inr (html_escape_str (py_str L text_field)))"

section \<open>Timestamps\<close>

text \<open>
  \<^verbatim>\<open>dt.strftime("%Y-%m-%d %H:%M:%S")\<close>: the fields of the wall-clock value. Month, day,
  hour, minute and second are padded with zeros to two digits. The year is written by the
  C library: padded to four digits on some platforms, as a plain decimal number on others,
  so that there the year 999 comes out as \<^verbatim>\<open>999\<close>.
\<close>

definition zfill :: "nat \<Rightarrow> string \<Rightarrow> string" where
  "zfill k s = replicate (k - length s) (CHR ''0'') @ s"

definition year_text :: "pylib \<Rightarrow> nat \<Rightarrow> string" where
  "year_text L y = (if lib_year_padded L then zfill 4 (str_nat y) else str_nat y)"

definition strftime :: "pylib \<Rightarrow> datetime \<Rightarrow> string" where
  "strftime L dt =
     year_text L (dt_year dt) @ ''-'' @ zfill 2 (str_nat (dt_month dt)) @ ''-'' @
     zfill 2 (str_nat (dt_day dt)) @ '' '' @ zfill 2 (str_nat (dt_hour dt)) @ '':'' @
     zfill 2 (str_nat (dt_minute dt)) @ '':'' @ zfill 2 (str_nat (dt_second dt))"

text \<open>\<^verbatim>\<open>datetime.min\<close> is the naive value 0001-01-01 00:00:00.\<close>

definition datetime_min :: datetime where
  "datetime_min =
     \<lparr>dt_year = 1, dt_month = 1, dt_day = 1, dt_hour = 0, dt_minute = 0, dt_second = 0,
      dt_micro = 0, dt_offset = None\<rparr>"

text \<open>
  \<^verbatim>\<open>datetime.fromisoformat(x)\<close> and \<^verbatim>\<open>datetime.strptime(x, "%Y-%m-%dT%H:%M:%S")\<close>: an
  argument that is not a string raises \<^verbatim>\<open>TypeError\<close>, a string the parser rejects
  raises \<^verbatim>\<open>ValueError\<close>.
\<close>

definition py_fromisoformat :: "pylib \<Rightarrow> json \<Rightarrow> datetime result" where
  "py_fromisoformat L v =
     (case v of
        JStr s \<Rightarrow> (case lib_fromisoformat L s of None \<Rightarrow> Inl ValueError | Some dt \<Rightarrow> Inr dt)
      | _ \<Rightarrow> Inl TypeError)"

definition py_strptime :: "pylib \<Rightarrow> json \<Rightarrow> datetime result" where
  "py_strptime L v =
     (case v of
        JStr s \<Rightarrow> (case lib_strptime L s of None \<Rightarrow> Inl ValueError | Some dt \<Rightarrow> Inr dt)
      | _ \<Rightarrow> Inl TypeError)"

text \<open>
  \<^verbatim>\<open>iso_to_local\<close>: both \<^verbatim>\<open>except Exception\<close> clauses catch whatever the parsers raise;
  the value returned on total failure is the argument itself, string or not.
\<close>

definition iso_to_local :: "pylib \<Rightarrow> json \<Rightarrow> json result" where
  "iso_to_local L dt_str =
     (case py_fromisoformat L dt_str of
        Inr dt \<Rightarrow> Inr (JStr (strftime L dt))
      | Inl e \<Rightarrow>
          (case py_strptime L dt_str of
             Inr dt \<Rightarrow> Inr (JStr (strftime L dt))
           | Inl e' \<Rightarrow> Inr dt_str))"

text \<open>The nested function \<^verbatim>\<open>get_date\<close> of \<^verbatim>\<open>generate_html\<close>, the sort key.\<close>

definition get_date :: "pylib \<Rightarrow> json \<Rightarrow> datetime result" where
  "get_date L m =
     py_bind (as_dict m) (\<lambda>msg.
       let d = dict_get msg ''date''
       in if d = JNull then Inr datetime_min
          else (case py_fromisoformat L d of
                  Inr dt \<Rightarrow> Inr dt
                | Inl e \<Rightarrow>
                    (case py_strptime L d of
                       Inr dt \<Rightarrow> Inr dt
                     | Inl e' \<Rightarrow> Inr datetime_min)))"

subsection \<open>Ordering of \<^verbatim>\<open>datetime\<close> values\<close>

text \<open>The proleptic Gregorian day number, as \<^verbatim>\<open>datetime.toordinal\<close> computes it.\<close>

definition is_leap :: "nat \<Rightarrow> bool" where
  "is_leap y = (y mod 4 = 0 \<and> (y mod 100 \<noteq> 0 \<or> y mod 400 = 0))"

definition days_before_year :: "nat \<Rightarrow> nat" where
  "days_before_year y = (y - 1) * 365 + (y - 1) div 4 - (y - 1) div 100 + (y - 1) div 400"

definition days_in_month :: "nat \<Rightarrow> nat \<Rightarrow> nat" where
  "days_in_month y m =
     (if m = 2 then (if is_leap y then 29 else 28)
      else if m = 4 \<or> m = 6 \<or> m = 9 \<or> m = 11 then 30 else 31)"

definition days_before_month :: "nat \<Rightarrow> nat \<Rightarrow> nat" where
  "days_before_month y m = sum_list (map (days_in_month y) [1..<m])"

definition toordinal :: "datetime \<Rightarrow> nat" where
  "toordinal dt = days_before_year (dt_year dt) + days_before_month (dt_year dt) (dt_month dt) + dt_day dt"

definition wall_micros :: "datetime \<Rightarrow> int" where
  "wall_micros dt =
     (((int (toordinal dt) * 24 + int (dt_hour dt)) * 60 + int (dt_minute dt)) * 60
        + int (dt_second dt)) * 1000000 + int (dt_micro dt)"

definition field_tuple :: "datetime \<Rightarrow> nat \<times> nat \<times> nat \<times> nat \<times> nat \<times> nat \<times> nat" where
  "field_tuple dt =
     (dt_year dt, dt_month dt, dt_day dt, dt_hour dt, dt_minute dt, dt_second dt, dt_micro dt)"

text \<open>
  \<^verbatim>\<open>a < b\<close> on two \<^verbatim>\<open>datetime\<close> values. Values with the same offset (two naive ones
  included) are compared field by field; two aware values with different offsets by
  their UTC instants; a naive value against an aware one raises \<^verbatim>\<open>TypeError\<close>.
\<close>

definition datetime_lt :: "datetime \<Rightarrow> datetime \<Rightarrow> bool result" where
  "datetime_lt a b =
     (if dt_offset a = dt_offset b then Inr (field_tuple a < field_tuple b)
      else (case (dt_offset a, dt_offset b) of
              (Some oa, Some ob) \<Rightarrow> Inr (wall_micros a - oa < wall_micros b - ob)
            | _ \<Rightarrow> Inl TypeError))"

subsection \<open>\<^verbatim>\<open>sorted(xs, key=f)\<close>\<close>

text \<open>
  \<^verbatim>\<open>sorted\<close> first computes the key of every element, in order, then sorts the pairs by
  key with a stable comparison sort that uses \<^verbatim>\<open><\<close> on keys only and lets the first
  exception of a key call or of a comparison escape. The model is stable insertion from
  the right: an element goes in front of the sorted rest unless a key there is strictly
  smaller.
\<close>

fun map_result :: "('a \<Rightarrow> 'b result) \<Rightarrow> 'a list \<Rightarrow> 'b list result" where
  "map_result f [] = Inr []"
| "map_result f (x # xs) =
     py_bind (f x) (\<lambda>y.
     py_bind (map_result f xs) (\<lambda>ys. Inr (y # ys)))"

fun insort_lt :: "('k \<Rightarrow> 'k \<Rightarrow> bool result) \<Rightarrow> 'k \<times> 'a \<Rightarrow> ('k \<times> 'a) list \<Rightarrow> ('k \<times> 'a) list result" where
  "insort_lt lt x [] = Inr [x]"
| "insort_lt lt x (y # ys) =
     py_bind (lt (fst y) (fst x)) (\<lambda>smaller.
       if smaller then py_bind (insort_lt lt x ys) (\<lambda>r. Inr (y # r))
       else Inr (x # y # ys))"

fun sort_lt :: "('k \<Rightarrow> 'k \<Rightarrow> bool result) \<Rightarrow> ('k \<times> 'a) list \<Rightarrow> ('k \<times> 'a) list result" where
  "sort_lt lt [] = Inr []"
| "sort_lt lt (x # xs) = py_bind (sort_lt lt xs) (insort_lt lt x)"

definition py_sorted :: "('k \<Rightarrow> 'k \<Rightarrow> bool result) \<Rightarrow> ('a \<Rightarrow> 'k result) \<Rightarrow> 'a list \<Rightarrow> 'a list result" where
  "py_sorted lt key xs =
     py_bind (map_result key xs) (\<lambda>ks.
     py_bind (sort_lt lt (zip ks xs)) (\<lambda>r. Inr (map snd r)))"

section \<open>Strings\<close>

text \<open>\<^verbatim>\<open>s.split(sep)\<close> with a one-character separator: never an empty list.\<close>

fun split_on :: "char \<Rightarrow> string \<Rightarrow> string list" where
  "split_on c [] = [[]]"
| "split_on c (x # xs) =
     (if x = c then [] # split_on c xs
      else (case split_on c xs of w # ws \<Rightarrow> (x # w) # ws | [] \<Rightarrow> [[x]]))"

text \<open>
  \<^verbatim>\<open>s.lower()\<close>, \<^verbatim>\<open>s.upper()\<close> and \<^verbatim>\<open>s.strip()\<close>. On a string of ASCII characters they
  are computed here: the 26 letters change case, and blank, tab, line feed, vertical tab,
  form feed, carriage return and the four separators from 28 to 31 are white space. On a
  string with a character outside ASCII the result is the library's.
\<close>

definition ord :: "char \<Rightarrow> nat" where
  "ord c = of_char c"

definition is_ascii :: "string \<Rightarrow> bool" where
  "is_ascii s = list_all (\<lambda>c. ord c < 128) s"

definition lower_char :: "char \<Rightarrow> char" where
  "lower_char c = (if 65 \<le> ord c \<and> ord c \<le> 90 then char_of (ord c + 32) else c)"

definition upper_char :: "char \<Rightarrow> char" where
  "upper_char c = (if 97 \<le> ord c \<and> ord c \<le> 122 then char_of (ord c - 32) else c)"

definition py_lower :: "pylib \<Rightarrow> string \<Rightarrow> string" where
  "py_lower L s = (if is_ascii s then map lower_char s else lib_lower L s)"

definition py_upper :: "pylib \<Rightarrow> string \<Rightarrow> string" where
  "py_upper L s = (if is_ascii s then map upper_char s else lib_upper L s)"

definition is_space :: "char \<Rightarrow> bool" where
  "is_space c = (ord c = 32 \<or> (9 \<le> ord c \<and> ord c \<le> 13) \<or> (28 \<le> ord c \<and> ord c \<le> 31))"

definition py_strip :: "pylib \<Rightarrow> string \<Rightarrow> string" where
  "py_strip L s =
     (if is_ascii s then rev (dropWhile is_space (rev (dropWhile is_space s)))
      else lib_strip L s)"

text \<open>
  Characters of a string: a character is a byte that is no continuation byte, together
  with the continuation bytes behind it. \<^verbatim>\<open>s[:n]\<close> keeps the first \<open>n\<close> characters, and
  iterating over a string yields its characters one by one.
\<close>

definition is_cont :: "char \<Rightarrow> bool" where
  "is_cont c = (128 \<le> ord c \<and> ord c < 192)"

fun take_chars :: "nat \<Rightarrow> string \<Rightarrow> string" where
  "take_chars 0 s = []"
| "take_chars (Suc n) [] = []"
| "take_chars (Suc n) (c # cs) = c # takeWhile is_cont cs @ take_chars n (dropWhile is_cont cs)"

function chars_of :: "string \<Rightarrow> string list" where
  "chars_of [] = []"
| "chars_of (c # cs) = (c # takeWhile is_cont cs) # chars_of (dropWhile is_cont cs)"
  by pat_completeness auto
termination
  by (relation "measure length") (auto simp: length_dropWhile_le less_Suc_eq_le)

text \<open>\<^verbatim>\<open>sep.join(xs)\<close>.\<close>

fun py_join :: "string \<Rightarrow> string list \<Rightarrow> string" where
  "py_join sep [] = []"
| "py_join sep [x] = x"
| "py_join sep (x # y # ys) = x @ sep @ py_join sep (y # ys)"

section \<open>Paths and the file system\<close>

text \<open>
  A \<^verbatim>\<open>pathlib\<close> path of the POSIX flavour: whether it is anchored at the root, and its
  components. Parsing a string drops empty components and \<^verbatim>\<open>.\<close>, and keeps \<^verbatim>\<open>..\<close>.
\<close>

record pure_path =
  p_abs :: bool
  p_parts :: "string list"

definition Path :: "string \<Rightarrow> pure_path" where
  "Path s =
     \<lparr>p_abs = (case s of [] \<Rightarrow> False | c # cs \<Rightarrow> c = CHR ''/''),
      p_parts = filter (\<lambda>w. w \<noteq> [] \<and> w \<noteq> ''.'') (split_on (CHR ''/'') s)\<rparr>"

text \<open>\<^verbatim>\<open>a / b\<close>: an absolute right operand replaces the left one.\<close>

definition joinpath :: "pure_path \<Rightarrow> pure_path \<Rightarrow> pure_path" where
  "joinpath a b = (if p_abs b then b else \<lparr>p_abs = p_abs a, p_parts = p_parts a @ p_parts b\<rparr>)"

definition p_name :: "pure_path \<Rightarrow> string" where
  "p_name p = (if p_parts p = [] then [] else last (p_parts p))"

definition p_parent :: "pure_path \<Rightarrow> pure_path" where
  "p_parent p = \<lparr>p_abs = p_abs p, p_parts = butlast (p_parts p)\<rparr>"

text \<open>\<^verbatim>\<open>p.stem\<close>: the name up to its last dot, when that dot is neither first nor last.\<close>

fun rfind_dot :: "string \<Rightarrow> nat option" where
  "rfind_dot [] = None"
| "rfind_dot (c # cs) =
     (case rfind_dot cs of
        Some i \<Rightarrow> Some (Suc i)
      | None \<Rightarrow> (if c = CHR ''.'' then Some 0 else None))"

definition p_stem :: "pure_path \<Rightarrow> string" where
  "p_stem p =
     (let name = p_name p
      in case rfind_dot name of
           Some i \<Rightarrow> (if 0 < i \<and> i + 1 < length name then take i name else name)
         | None \<Rightarrow> name)"

text \<open>
  The file system as the program sees it through the operating system: what is at each
  path, a file with its content or a directory, and \<open>None\<close> where the system reports that
  nothing is there. \<open>Refused\<close> marks a path that the system declines to examine: every call
  on it fails with an error other than the ones that mean ``not there'', as for a name
  longer than the system allows or below a directory that may not be searched. Symbolic
  links are not modelled, and \<^verbatim>\<open>..\<close> is a component like any other.
\<close>

datatype node = File string | Dir | Refused

type_synonym filesys = "pure_path \<Rightarrow> node option"

text \<open>
  \<^verbatim>\<open>Path.exists()\<close> calls \<^verbatim>\<open>stat\<close>; it answers \<^verbatim>\<open>False\<close> on the errors that mean ``not
  there'' and lets every other \<^verbatim>\<open>OSError\<close> escape.
\<close>

definition p_exists :: "filesys \<Rightarrow> pure_path \<Rightarrow> bool result" where
  "p_exists fs p =
     (case fs p of
        None \<Rightarrow> Inr False
      | Some (File c) \<Rightarrow> Inr True
      | Some Dir \<Rightarrow> Inr True
      | Some Refused \<Rightarrow> Inl OSError)"

text \<open>\<^verbatim>\<open>os.mkdir\<close>, and \<^verbatim>\<open>Path.mkdir(parents=True, exist_ok=True)\<close> on top of it.\<close>

definition os_mkdir :: "filesys \<Rightarrow> pure_path \<Rightarrow> filesys result" where
  "os_mkdir fs p =
     (case fs p of
        Some Refused \<Rightarrow> Inl OSError
      | Some (File c) \<Rightarrow> Inl FileExistsError
      | Some Dir \<Rightarrow> Inl FileExistsError
      | None \<Rightarrow>
          (case fs (p_parent p) of
             None \<Rightarrow> Inl FileNotFoundError
           | Some (File c) \<Rightarrow> Inl NotADirectoryError
           | Some Refused \<Rightarrow> Inl OSError
           | Some Dir \<Rightarrow> Inr (fs(p \<mapsto> Dir))))"

definition mkdir_exist_ok :: "filesys \<Rightarrow> pure_path \<Rightarrow> filesys result" where
  "mkdir_exist_ok fs p =
     (case os_mkdir fs p of
        Inr fs' \<Rightarrow> Inr fs'
      | Inl e \<Rightarrow> (if e \<noteq> FileNotFoundError \<and> fs p = Some Dir then Inr fs else Inl e))"

function mkdir_parents :: "filesys \<Rightarrow> pure_path \<Rightarrow> filesys result" where
  "mkdir_parents fs p =
     (case os_mkdir fs p of
        Inr fs' \<Rightarrow> Inr fs'
      | Inl e \<Rightarrow>
          (if e = FileNotFoundError then
             (if p_parent p = p then Inl FileNotFoundError
              else py_bind (mkdir_parents fs (p_parent p)) (\<lambda>fs'. mkdir_exist_ok fs' p))
           else if fs p = Some Dir then Inr fs else Inl e))"
  by pat_completeness auto
termination
proof (relation "measure (\<lambda>(fs, p). length (p_parts p))")
  show "wf (measure (\<lambda>(fs :: filesys, p). length (p_parts p)))"
    by simp
next
  fix fs :: filesys and p :: pure_path and e :: py_error
  assume "p_parent p \<noteq> p"
  have "p_parts p \<noteq> []"
  proof
    assume "p_parts p = []"
    then have "p_parent p = p"
      by (cases p) (simp add: p_parent_def)
    with \<open>p_parent p \<noteq> p\<close> show False
      by simp
  qed
  then show "((fs, p_parent p), (fs, p)) \<in> measure (\<lambda>(fs, p). length (p_parts p))"
    by (simp add: p_parent_def)
qed

declare mkdir_parents.simps [simp del]

text \<open>\<^verbatim>\<open>ensure_dir\<close>.\<close>

definition ensure_dir :: "filesys \<Rightarrow> pure_path \<Rightarrow> filesys result" where
  "ensure_dir fs path =
     py_bind (p_exists fs path) (\<lambda>there. if \<not> there then mkdir_parents fs path else Inr fs)"

text \<open>
  \<^verbatim>\<open>shutil.copy2(src, dst)\<close>: a destination that is a directory receives the file under
  the source's name; the source is opened for reading and the destination for writing.
\<close>

definition open_write :: "filesys \<Rightarrow> pure_path \<Rightarrow> string \<Rightarrow> filesys result" where
  "open_write fs p content =
     (case fs p of
        Some Dir \<Rightarrow> Inl IsADirectoryError
      | Some Refused \<Rightarrow> Inl OSError
      | _ \<Rightarrow> (case fs (p_parent p) of
                None \<Rightarrow> Inl FileNotFoundError
              | Some (File c) \<Rightarrow> Inl NotADirectoryError
              | Some Refused \<Rightarrow> Inl OSError
              | Some Dir \<Rightarrow> Inr (fs(p \<mapsto> File content))))"

definition copy2 :: "filesys \<Rightarrow> pure_path \<Rightarrow> pure_path \<Rightarrow> filesys result" where
  "copy2 fs src dst =
     (let dst' = (if fs dst = Some Dir then joinpath dst (Path (p_name src)) else dst)
      in case fs src of
           None \<Rightarrow> Inl FileNotFoundError
         | Some Dir \<Rightarrow> Inl IsADirectoryError
         | Some Refused \<Rightarrow> Inl OSError
         | Some (File content) \<Rightarrow> open_write fs dst' content)"

section \<open>Media resolver\<close>

text \<open>The probing loop of \<^verbatim>\<open>copy_media_file\<close>: the first existing candidate replaces
  \<open>src\<close> and ends the loop.\<close>

fun probe ::
  "filesys \<Rightarrow> pure_path \<Rightarrow> string \<Rightarrow> string list \<Rightarrow> pure_path \<Rightarrow> pure_path result" where
  "probe fs src_base name [] src = Inr src"
| "probe fs src_base name (try_dir # rest) src =
     (let candidate = joinpath (joinpath src_base (Path try_dir)) (Path name)
      in py_bind (p_exists fs candidate) (\<lambda>there.
           if there then Inr candidate else probe fs src_base name rest src))"

text \<open>The source that \<^verbatim>\<open>copy_media_file\<close> settles on for a path string, before it tests
  it for existence the last time.\<close>

definition locate :: "filesys \<Rightarrow> pure_path \<Rightarrow> string \<Rightarrow> pure_path result" where
  "locate fs src_base media_path =
     (let src = Path media_path;
          src = (if \<not> p_abs src then joinpath src_base src else src)
      in py_bind (p_exists fs src) (\<lambda>there.
           if \<not> there
           then probe fs src_base (p_name (Path media_path)) [''media'', ''files'', ''''] src
           else Inr src))"

text \<open>
  \<^verbatim>\<open>copy_media_file\<close>. \<^verbatim>\<open>Path(media_path)\<close> raises \<^verbatim>\<open>TypeError\<close> on anything that is not a
  string; an \<^verbatim>\<open>OSError\<close> of an existence test or of a file operation escapes, since nothing
  in the program catches it.
\<close>

definition copy_media_file ::
  "json \<Rightarrow> pure_path \<Rightarrow> pure_path \<Rightarrow> filesys \<Rightarrow> (string option \<times> filesys) result" where
  "copy_media_file media_path src_base dst_media_dir fs =
     (if \<not> truthy media_path then Inr (None, fs)
      else (case media_path of
              JStr s \<Rightarrow>
                py_bind (locate fs src_base s) (\<lambda>src.
                py_bind (p_exists fs src) (\<lambda>there.
                  if \<not> there then Inr (None, fs)
                  else py_bind (ensure_dir fs dst_media_dir) (\<lambda>fs1.
                    let dst = joinpath dst_media_dir (Path (p_name src))
                    in py_bind (p_exists fs1 dst) (\<lambda>copied_before.
                         if \<not> copied_before
                         then py_bind (copy2 fs1 src dst) (\<lambda>fs2. Inr (Some (p_name dst), fs2))
                         else Inr (Some (p_name dst), fs1)))))
            | _ \<Rightarrow> Inl TypeError))"

section \<open>Document assembler\<close>

subsection \<open>Fixed text of the page\<close>

definition CSS :: string where
  "CSS =
     ''\<newline>'' @
     ''body { font-family: -apple-system, BlinkMacSystemFont, \"Segoe UI\", Robot'' @
     ''o, \"Helvetica Neue\", Arial; background:#f5f7fb; color:#111; }\<newline>'' @
     ''.container { max-width:900px; margin:20px auto; background:white; border'' @
     ''-radius:8px; box-shadow:0 2px 8px rgba(0,0,0,0.06); padding:18px; }\<newline>'' @
     ''.msg { padding:10px 12px; border-bottom:1px solid #eef1f6; display:flex;'' @
     '' gap:12px; align-items:flex-start; }\<newline>'' @
     ''.avatar { width:40px; height:40px; border-radius:50%; background:#cbd5e1'' @
     ''; display:inline-block; flex:0 0 40px; text-align:center; line-height:40'' @
     ''px; color:#fff; font-weight:700; }\<newline>'' @
     ''.body { flex:1; }\<newline>'' @
     ''.meta { font-size:12px; color:#6b7280; margin-bottom:6px; }\<newline>'' @
     ''.text { white-space:pre-wrap; font-size:15px; color:#0f172a; }\<newline>'' @
     ''.media { margin-top:8px; }\<newline>'' @
     ''.media img { max-width:420px; border-radius:6px; box-shadow:0 1px 4px rg'' @
     ''ba(0,0,0,0.08); }\<newline>'' @
     ''.small { font-size:13px; color:#475569; }\<newline>'' @
     ''.center { text-align:center; color:#64748b; margin:12px 0; }\<newline>''"

definition title_prefix :: string where
  "title_prefix =
     ''Telegram export '' @
     [CHR 0xE2, CHR 0x80, CHR 0x94] @
     '' ''"

definition heading :: string where
  "heading =
     ''<h2 class='center'>'' @
     [CHR 0xD0, CHR 0xA7, CHR 0xD0, CHR 0xB0, CHR 0xD1, CHR 0x82] @
     '' '' @
     [CHR 0xE2, CHR 0x80, CHR 0x94] @
     '' '' @
     [CHR 0xD1, CHR 0x8D, CHR 0xD0, CHR 0xBA, CHR 0xD1, CHR 0x81, CHR 0xD0, CHR 0xBF, CHR 0xD0, CHR 0xBE, CHR 0xD1, CHR 0x80, CHR 0xD1, CHR 0x82] @
     '' Telegram</h2>''"

definition meta_sep :: string where
  "meta_sep =
     '' '' @
     [CHR 0xC2, CHR 0xB7] @
     '' ''"

definition caption_file :: string where
  "caption_file =
     [CHR 0xD0, CHR 0xA1, CHR 0xD0, CHR 0xBA, CHR 0xD0, CHR 0xB0, CHR 0xD1, CHR 0x87, CHR 0xD0, CHR 0xB0, CHR 0xD1, CHR 0x82, CHR 0xD1, CHR 0x8C] @
     '' '' @
     [CHR 0xD1, CHR 0x84, CHR 0xD0, CHR 0xB0, CHR 0xD0, CHR 0xB9, CHR 0xD0, CHR 0xBB] @
     '': ''"

definition caption_document :: string where
  "caption_document =
     [CHR 0xD0, CHR 0xA1, CHR 0xD0, CHR 0xBA, CHR 0xD0, CHR 0xB0, CHR 0xD1, CHR 0x87, CHR 0xD0, CHR 0xB0, CHR 0xD1, CHR 0x82, CHR 0xD1, CHR 0x8C] @
     '' '' @
     [CHR 0xD0, CHR 0xB4, CHR 0xD0, CHR 0xBE, CHR 0xD0, CHR 0xBA, CHR 0xD1, CHR 0x83, CHR 0xD0, CHR 0xBC, CHR 0xD0, CHR 0xB5, CHR 0xD0, CHR 0xBD, CHR 0xD1, CHR 0x82] @
     '': ''"

definition caption_media :: string where
  "caption_media =
     [CHR 0xD0, CHR 0xA1, CHR 0xD0, CHR 0xBA, CHR 0xD0, CHR 0xB0, CHR 0xD1, CHR 0x87, CHR 0xD0, CHR 0xB0, CHR 0xD1, CHR 0x82, CHR 0xD1, CHR 0x8C] @
     '': ''"

definition caption_forwarded :: string where
  "caption_forwarded =
     [CHR 0xD0, CHR 0x9F, CHR 0xD0, CHR 0xB5, CHR 0xD1, CHR 0x80, CHR 0xD0, CHR 0xB5, CHR 0xD1, CHR 0x81, CHR 0xD0, CHR 0xBB, CHR 0xD0, CHR 0xB0, CHR 0xD0, CHR 0xBD, CHR 0xD0, CHR 0xBE] @
     '' '' @
     [CHR 0xD0, CHR 0xBE, CHR 0xD1, CHR 0x82] @
     '': ''"

definition caption_reply :: string where
  "caption_reply =
     [CHR 0xD0, CHR 0x92] @
     '' '' @
     [CHR 0xD0, CHR 0xBE, CHR 0xD1, CHR 0x82, CHR 0xD0, CHR 0xB2, CHR 0xD0, CHR 0xB5, CHR 0xD1, CHR 0x82] @
     '' '' @
     [CHR 0xD0, CHR 0xBD, CHR 0xD0, CHR 0xB0] @
     '' '' @
     [CHR 0xD1, CHR 0x81, CHR 0xD0, CHR 0xBE, CHR 0xD0, CHR 0xBE, CHR 0xD0, CHR 0xB1, CHR 0xD1, CHR 0x89, CHR 0xD0, CHR 0xB5, CHR 0xD0, CHR 0xBD, CHR 0xD0, CHR 0xB8, CHR 0xD0, CHR 0xB5] @
     '' id: ''"

definition image_exts :: "string list" where
  "image_exts = [''jpg'', ''jpeg'', ''png'', ''gif'', ''webp'', ''bmp'', ''svg'', ''heic'']"

text \<open>\<^verbatim>\<open>copied.lower().split('.')[-1] in (...)\<close>.\<close>

definition is_image_name :: "pylib \<Rightarrow> string \<Rightarrow> bool" where
  "is_image_name L copied =
     (last (split_on (CHR ''.'') (py_lower L copied)) \<in> set image_exts)"

text \<open>
  The two shapes of a media block. \<open>alt\<close> is the text of the \<^verbatim>\<open>alt\<close> attribute with its
  leading blank, or empty where the source writes none; \<open>caption\<close> is what precedes the
  file name in the label of a link.
\<close>

definition media_img :: "string \<Rightarrow> string \<Rightarrow> string \<Rightarrow> string" where
  "media_img edir copied alt =
     ''<div class='media'><a href='' @ [CHR 0x27] @ edir @ ''/'' @ html_escape_str copied @
     [CHR 0x27] @ '' target='_blank'><img src='' @ [CHR 0x27] @ edir @ ''/'' @
     html_escape_str copied @ [CHR 0x27] @ alt @ ''></a></div>''"

definition media_link :: "string \<Rightarrow> string \<Rightarrow> string \<Rightarrow> string" where
  "media_link edir copied caption =
     ''<div class='media'><a href='' @ [CHR 0x27] @ edir @ ''/'' @ html_escape_str copied @
     [CHR 0x27] @ '' target='_blank'>'' @ caption @ html_escape_str copied @ ''</a></div>''"

definition by_extension :: "pylib \<Rightarrow> string \<Rightarrow> string \<Rightarrow> string \<Rightarrow> string \<Rightarrow> string" where
  "by_extension L edir copied alt caption =
     (if is_image_name L copied then media_img edir copied alt
      else media_link edir copied caption)"

text \<open>\<^verbatim>\<open>if copied:\<close> on what the resolver returned.\<close>

definition got_name :: "string option \<Rightarrow> bool" where
  "got_name copied = (case copied of None \<Rightarrow> False | Some n \<Rightarrow> n \<noteq> [])"

subsection \<open>Media blocks of one message\<close>

text \<open>
  Each function is one of the five \<^verbatim>\<open>if m.get(...)\<close> statements of the loop body, in
  the order of the source: what it appends to \<^verbatim>\<open>media_html_parts\<close>, and the file system
  it leaves.
\<close>

definition photo_block ::
  "string \<Rightarrow> pure_path \<Rightarrow> pure_path \<Rightarrow> (string \<times> json) list \<Rightarrow> filesys
     \<Rightarrow> (string list \<times> filesys) result" where
  "photo_block edir src_base dst m fs =
     (if truthy (dict_get m ''photo'') then
        py_bind (dict_item m ''photo'') (\<lambda>v.
        py_bind (copy_media_file v src_base dst fs) (\<lambda>(copied, fs').
          if got_name copied then Inr ([media_img edir (the copied) ('' alt='photo'' @ [CHR 0x27])], fs')
          else Inr ([], fs')))
      else Inr ([], fs))"

definition file_block ::
  "pylib \<Rightarrow> string \<Rightarrow> pure_path \<Rightarrow> pure_path \<Rightarrow> (string \<times> json) list \<Rightarrow> filesys
     \<Rightarrow> (string list \<times> filesys) result" where
  "file_block L edir src_base dst m fs =
     (if truthy (dict_get m ''file'') then
        py_bind (dict_item m ''file'') (\<lambda>v.
        py_bind (copy_media_file v src_base dst fs) (\<lambda>(copied, fs').
          if got_name copied
          then Inr ([by_extension L edir (the copied) ('' alt='file'' @ [CHR 0x27]) caption_file],
                     fs')
          else Inr ([], fs')))
      else Inr ([], fs))"

definition document_block ::
  "pylib \<Rightarrow> string \<Rightarrow> pure_path \<Rightarrow> pure_path \<Rightarrow> (string \<times> json) list \<Rightarrow> filesys
     \<Rightarrow> (string list \<times> filesys) result" where
  "document_block L edir src_base dst m fs =
     (if truthy (dict_get m ''document'') then
        py_bind (dict_item m ''document'') (\<lambda>doc.
        py_bind (case doc of
                   JDict dd \<Rightarrow>
                     (if truthy (dict_get dd ''file'')
                      then copy_media_file (dict_get dd ''file'') src_base dst fs
                      else copy_media_file doc src_base dst fs)
                 | _ \<Rightarrow> copy_media_file doc src_base dst fs) (\<lambda>(copied, fs').
          if got_name copied
          then Inr ([by_extension L edir (the copied) '''' caption_document], fs')
          else Inr ([], fs')))
      else Inr ([], fs))"

text \<open>\<^verbatim>\<open>media.get("file") or media.get("photo") or media.get("path") or media.get("document")\<close>.\<close>

definition media_possible :: "(string \<times> json) list \<Rightarrow> json" where
  "media_possible media =
     py_or (py_or (py_or (dict_get media ''file'') (dict_get media ''photo''))
                  (dict_get media ''path''))
           (dict_get media ''document'')"

definition media_block ::
  "pylib \<Rightarrow> string \<Rightarrow> pure_path \<Rightarrow> pure_path \<Rightarrow> (string \<times> json) list \<Rightarrow> filesys
     \<Rightarrow> (string list \<times> filesys) result" where
  "media_block L edir src_base dst m fs =
     (if truthy (dict_get m ''media'') then
        py_bind (dict_item m ''media'') (\<lambda>media.
          case media of
            JDict md \<Rightarrow>
              (let possible = media_possible md
               in if truthy possible then
                    py_bind (copy_media_file possible src_base dst fs) (\<lambda>(copied, fs').
                      if got_name copied
                      then Inr ([by_extension L edir (the copied) '''' caption_media], fs')
                      else Inr ([], fs'))
                  else Inr ([], fs))
          | JStr s \<Rightarrow>
              py_bind (copy_media_file media src_base dst fs) (\<lambda>(copied, fs').
                if got_name copied
                then Inr ([by_extension L edir (the copied) '''' caption_media], fs')
                else Inr ([], fs'))
          | _ \<Rightarrow> Inr ([], fs))
      else Inr ([], fs))"

text \<open>The loop over \<^verbatim>\<open>m["attachments"]\<close>, on the elements the iteration yields.\<close>

fun attachments_loop ::
  "string \<Rightarrow> pure_path \<Rightarrow> pure_path \<Rightarrow> json list \<Rightarrow> filesys
     \<Rightarrow> (string list \<times> filesys) result" where
  "attachments_loop edir src_base dst [] fs = Inr ([], fs)"
| "attachments_loop edir src_base dst (att # rest) fs =
     py_bind
       (case att of
          JDict ad \<Rightarrow>
            (if truthy (dict_get ad ''file'') then
               py_bind (dict_item ad ''file'') (\<lambda>v.
               py_bind (copy_media_file v src_base dst fs) (\<lambda>(copied, fs').
                 if got_name copied then Inr ([media_link edir (the copied) ''''], fs')
                 else Inr ([], fs')))
             else Inr ([], fs))
        | _ \<Rightarrow> Inr ([], fs))
       (\<lambda>(parts, fs1).
          py_bind (attachments_loop edir src_base dst rest fs1) (\<lambda>(more, fs2).
            Inr (parts @ more, fs2)))"

text \<open>
  What \<^verbatim>\<open>for att in x\<close> iterates over: the elements of a list, the keys of a dictionary,
  the characters of a string; a number or a boolean is not iterable.
\<close>

definition py_iter :: "json \<Rightarrow> json list result" where
  "py_iter x =
     (case x of
        JList xs \<Rightarrow> Inr xs
      | JDict d \<Rightarrow> Inr (map (\<lambda>kv. JStr (fst kv)) d)
      | JStr s \<Rightarrow> Inr (map JStr (chars_of s))
      | _ \<Rightarrow> Inl TypeError)"

definition attachments_block ::
  "string \<Rightarrow> pure_path \<Rightarrow> pure_path \<Rightarrow> (string \<times> json) list \<Rightarrow> filesys
     \<Rightarrow> (string list \<times> filesys) result" where
  "attachments_block edir src_base dst m fs =
     (if truthy (dict_get m ''attachments'') then
        py_bind (dict_item m ''attachments'') (\<lambda>atts.
        py_bind (py_iter atts) (\<lambda>xs. attachments_loop edir src_base dst xs fs))
      else Inr ([], fs))"

definition media_blocks ::
  "pylib \<Rightarrow> string \<Rightarrow> pure_path \<Rightarrow> pure_path \<Rightarrow> (string \<times> json) list \<Rightarrow> filesys
     \<Rightarrow> (string list \<times> filesys) result" where
  "media_blocks L edir src_base dst m fs =
     py_bind (photo_block edir src_base dst m fs) (\<lambda>(b1, fs1).
     py_bind (file_block L edir src_base dst m fs1) (\<lambda>(b2, fs2).
     py_bind (document_block L edir src_base dst m fs2) (\<lambda>(b3, fs3).
     py_bind (media_block L edir src_base dst m fs3) (\<lambda>(b4, fs4).
     py_bind (attachments_block edir src_base dst m fs4) (\<lambda>(b5, fs5).
       Inr (b1 @ b2 @ b3 @ b4 @ b5, fs5))))))"

subsection \<open>Authors\<close>

text \<open>\<^verbatim>\<open>m.get("from") or m.get("actor") or "Unknown"\<close>.\<close>

definition author_of :: "(string \<times> json) list \<Rightarrow> json" where
  "author_of m = py_or (py_or (dict_get m ''from'') (dict_get m ''actor'')) (JStr ''Unknown'')"

text \<open>\<^verbatim>\<open>author.strip()[:2].upper() if author.strip() else "U"\<close>.\<close>

definition initial_of :: "pylib \<Rightarrow> string \<Rightarrow> string" where
  "initial_of L author =
     (if py_strip L author \<noteq> [] then py_upper L (take_chars 2 (py_strip L author))
      else ''U'')"

text \<open>
  The first loop of \<^verbatim>\<open>generate_html\<close>. An author that is a list or a dictionary cannot
  be looked up in \<^verbatim>\<open>participants\<close> (\<^verbatim>\<open>TypeError\<close>); any other author that is not a string
  has no \<^verbatim>\<open>strip\<close> (\<^verbatim>\<open>AttributeError\<close>).
\<close>

fun build_participants ::
  "pylib \<Rightarrow> json list \<Rightarrow> (string \<rightharpoonup> string) \<Rightarrow> (string \<rightharpoonup> string) result" where
  "build_participants L [] participants = Inr participants"
| "build_participants L (m # ms) participants =
     py_bind (as_dict m) (\<lambda>msg.
       case author_of msg of
         JStr author \<Rightarrow>
           build_participants L ms
             (if participants author = None then participants(author \<mapsto> initial_of L author)
              else participants)
       | JList xs \<Rightarrow> Inl TypeError
       | JDict d \<Rightarrow> Inl TypeError
       | _ \<Rightarrow> Inl AttributeError)"

text \<open>\<^verbatim>\<open>participants.get(author, "U")\<close>.\<close>

definition participants_get :: "(string \<rightharpoonup> string) \<Rightarrow> json \<Rightarrow> string result" where
  "participants_get participants author =
     (case author of
        JStr a \<Rightarrow> Inr (case participants a of None \<Rightarrow> ''U'' | Some i \<Rightarrow> i)
      | JList xs \<Rightarrow> Inl TypeError
      | JDict d \<Rightarrow> Inl TypeError
      | _ \<Rightarrow> Inr ''U'')"

subsection \<open>One message, and the document\<close>

definition annotation :: "pylib \<Rightarrow> string \<Rightarrow> json \<Rightarrow> string list" where
  "annotation L caption v =
     (if truthy v
      then [''<div class='small'>'' @ caption @ html_escape_str (py_str L v) @ ''</div>'']
      else [])"

text \<open>The body of the rendering loop for one message.\<close>

definition render_message ::
  "pylib \<Rightarrow> (string \<rightharpoonup> string) \<Rightarrow> string \<Rightarrow> pure_path \<Rightarrow> pure_path \<Rightarrow> json \<Rightarrow> filesys
     \<Rightarrow> (string list \<times> filesys) result" where
  "render_message L participants edir src_base dst m0 fs =
     py_bind (as_dict m0) (\<lambda>m.
     let author = author_of m
     in py_bind (iso_to_local L (dict_get_default m ''date'' (JStr ''''))) (\<lambda>date.
        py_bind (parse_text_field L (dict_get m ''text'')) (\<lambda>text_html.
        py_bind (participants_get participants author) (\<lambda>initial.
        py_bind (html_escape author) (\<lambda>author_html.
        py_bind (html_escape date) (\<lambda>date_html.
        py_bind (media_blocks L edir src_base dst m fs) (\<lambda>(media_html_parts, fs').
          Inr ([''<div class='msg'>'',
                ''<div class='avatar' title='' @ [CHR 0x27] @ author_html @ [CHR 0x27] @ ''>'' @
                  html_escape_str initial @ ''</div>'',
                ''<div class='body'>'',
                ''<div class='meta'><strong>'' @ author_html @ ''</strong>'' @ meta_sep @
                  ''<span class='small'>'' @ date_html @ ''</span></div>'']
               @ (if text_html \<noteq> [] then [''<div class='text'>'' @ text_html @ ''</div>''] else [])
               @ media_html_parts
               @ annotation L caption_forwarded (dict_get m ''forwarded_from'')
               @ annotation L caption_reply (dict_get m ''reply_to'')
               @ [''</div>'', ''</div>''],
               fs'))))))))"

fun render_messages ::
  "pylib \<Rightarrow> (string \<rightharpoonup> string) \<Rightarrow> string \<Rightarrow> pure_path \<Rightarrow> pure_path \<Rightarrow> json list \<Rightarrow> filesys
     \<Rightarrow> (string list \<times> filesys) result" where
  "render_messages L participants edir src_base dst [] fs = Inr ([], fs)"
| "render_messages L participants edir src_base dst (m # ms) fs =
     py_bind (render_message L participants edir src_base dst m fs) (\<lambda>(parts, fs1).
     py_bind (render_messages L participants edir src_base dst ms fs1) (\<lambda>(rest, fs2).
       Inr (parts @ rest, fs2)))"

definition page_head :: "pure_path \<Rightarrow> string list" where
  "page_head out_html_path =
     [''<!doctype html>\<newline><html lang='ru'>\<newline><head>\<newline><meta charset='utf-8'>'',
      ''<title>'' @ title_prefix @ html_escape_str (p_stem out_html_path) @ ''</title>'',
      ''<meta name='viewport' content='width=device-width,initial-scale=1'>'',
      ''<style>'' @ CSS @ ''</style>\<newline></head>\<newline><body>\<newline><div class='container'>'',
      heading]"

definition page_foot :: "string list" where
  "page_foot = [''</div>\<newline></body>\<newline></html>'']"

text \<open>
  \<^verbatim>\<open>generate_html\<close>. The result holds the two returned paths, next to the file system with
  the copied media and the written page.
\<close>

definition generate_html ::
  "pylib \<Rightarrow> json list \<Rightarrow> pure_path \<Rightarrow> pure_path \<Rightarrow> string \<Rightarrow> filesys
     \<Rightarrow> ((pure_path \<times> pure_path) \<times> filesys) result" where
  "generate_html L messages out_html_path media_src_base embed_media_dir_name fs =
     (let out_dir = p_parent out_html_path;
          media_dst_dir = joinpath out_dir (Path embed_media_dir_name)
      in py_bind (ensure_dir fs out_dir) (\<lambda>fs0.
         py_bind (build_participants L messages Map.empty) (\<lambda>participants.
         py_bind (py_sorted datetime_lt (get_date L) messages) (\<lambda>messages_sorted.
         py_bind (render_messages L participants embed_media_dir_name media_src_base
                    media_dst_dir messages_sorted fs0) (\<lambda>(body, fs1).
         py_bind (open_write fs1 out_html_path
                    (py_join ''\<newline>'' (page_head out_html_path @ body @ page_foot))) (\<lambda>fs2.
           Inr ((out_html_path, media_dst_dir), fs2)))))))"

section \<open>An instance of the library for running the model\<close>

text \<open>
  Parsers for timestamps of the shape \<^verbatim>\<open>YYYY-MM-DDTHH:MM:SS\<close>, for \<^verbatim>\<open>fromisoformat\<close> also
  with a numeric offset \<^verbatim>\<open>+HH:MM\<close> or \<^verbatim>\<open>-HH:MM\<close> behind it. On strings of these shapes
  they return what the library returns, and they reject every other string. They serve to
  run the model on concrete documents; the general statements below are about every
  library.
\<close>

definition digit_val :: "char \<Rightarrow> nat option" where
  "digit_val c = (if 48 \<le> ord c \<and> ord c \<le> 57 then Some (ord c - 48) else None)"

fun digits_val :: "nat \<Rightarrow> string \<Rightarrow> nat option" where
  "digits_val acc [] = Some acc"
| "digits_val acc (c # cs) =
     (case digit_val c of None \<Rightarrow> None | Some d \<Rightarrow> digits_val (acc * 10 + d) cs)"

definition field :: "string \<Rightarrow> nat \<Rightarrow> nat \<Rightarrow> nat option" where
  "field s i n = digits_val 0 (take n (drop i s))"

definition parse_wall :: "string \<Rightarrow> datetime option" where
  "parse_wall s =
     (if length s = 19 \<and> s ! 4 = CHR ''-'' \<and> s ! 7 = CHR ''-'' \<and> s ! 10 = CHR ''T''
         \<and> s ! 13 = CHR '':'' \<and> s ! 16 = CHR '':''
      then (case (field s 0 4, field s 5 2, field s 8 2, field s 11 2, field s 14 2, field s 17 2) of
              (Some y, Some mo, Some d, Some h, Some mi, Some se) \<Rightarrow>
                (if 1 \<le> y \<and> 1 \<le> mo \<and> mo \<le> 12 \<and> 1 \<le> d \<and> d \<le> days_in_month y mo
                    \<and> h < 24 \<and> mi < 60 \<and> se < 60
                 then Some \<lparr>dt_year = y, dt_month = mo, dt_day = d, dt_hour = h, dt_minute = mi,
                            dt_second = se, dt_micro = 0, dt_offset = None\<rparr>
                 else None)
            | _ \<Rightarrow> None)
      else None)"

definition parse_offset :: "string \<Rightarrow> int option" where
  "parse_offset s =
     (if length s = 6 \<and> (s ! 0 = CHR ''+'' \<or> s ! 0 = CHR ''-'') \<and> s ! 3 = CHR '':''
      then (case (field s 1 2, field s 4 2) of
              (Some h, Some mi) \<Rightarrow>
                (if h < 24 \<and> mi < 60
                 then Some ((if s ! 0 = CHR ''-'' then - 1 else 1) * (int h * 60 + int mi) * 60000000)
                 else None)
            | _ \<Rightarrow> None)
      else None)"

definition fromisoformat_inst :: "string \<Rightarrow> datetime option" where
  "fromisoformat_inst s =
     (if length s = 19 then parse_wall s
      else (case (parse_wall (take 19 s), parse_offset (drop 19 s)) of
              (Some dt, Some off) \<Rightarrow> Some (dt\<lparr>dt_offset := Some off\<rparr>)
            | _ \<Rightarrow> None))"

text \<open>
  \<^verbatim>\<open>strptime\<close> with \<^verbatim>\<open>%Y-%m-%dT%H:%M:%S\<close> also takes fields written without a leading
  zero, which \<^verbatim>\<open>fromisoformat\<close> refuses.
\<close>

definition short_field :: "string \<Rightarrow> nat option" where
  "short_field w = (if length w = 1 \<or> length w = 2 then digits_val 0 w else None)"

definition strptime_inst :: "string \<Rightarrow> datetime option" where
  "strptime_inst s =
     (case split_on (CHR ''T'') s of
        [date, time] \<Rightarrow>
          (case (split_on (CHR ''-'') date, split_on (CHR '':'') time) of
             ([y, mo, d], [h, mi, se]) \<Rightarrow>
               (case (if length y = 4 then digits_val 0 y else None, short_field mo,
                      short_field d, short_field h, short_field mi, short_field se) of
                  (Some yv, Some mov, Some dv, Some hv, Some miv, Some sev) \<Rightarrow>
                    (if 1 \<le> yv \<and> 1 \<le> mov \<and> mov \<le> 12 \<and> 1 \<le> dv
                        \<and> dv \<le> days_in_month yv mov \<and> hv < 24 \<and> miv < 60 \<and> sev < 60
                     then Some \<lparr>dt_year = yv, dt_month = mov, dt_day = dv, dt_hour = hv,
                                dt_minute = miv, dt_second = sev, dt_micro = 0, dt_offset = None\<rparr>
                     else None)
                | _ \<Rightarrow> None)
           | _ \<Rightarrow> None)
      | _ \<Rightarrow> None)"

text \<open>
  The year is written as glibc writes it, without padding. The functions for strings
  outside ASCII return their argument, which is what the library returns for text without
  cased letters and without white space at its ends; they are not applied to any other
  text below.
\<close>

definition lib_inst :: pylib where
  "lib_inst =
     \<lparr>lib_fromisoformat = fromisoformat_inst, lib_strptime = strptime_inst,
      lib_repr = (\<lambda>v. ''<object>''), lib_year_padded = False,
      lib_lower = (\<lambda>s. s), lib_upper = (\<lambda>s. s), lib_strip = (\<lambda>s. s)\<rparr>"

text \<open>
  A file system for the same purpose: the root with a picture in \<^verbatim>\<open>/tmp\<close>, and the working
  directory with an export folder \<^verbatim>\<open>export\<close> that holds a picture and, in
  \<^verbatim>\<open>export/files\<close>, a document.
\<close>

definition rel :: "string list \<Rightarrow> pure_path" where
  "rel ps = \<lparr>p_abs = False, p_parts = ps\<rparr>"

definition absolute :: "string list \<Rightarrow> pure_path" where
  "absolute ps = \<lparr>p_abs = True, p_parts = ps\<rparr>"

definition fs_inst :: filesys where
  "fs_inst =
     [absolute [] \<mapsto> Dir,
      absolute [''tmp''] \<mapsto> Dir,
      absolute [''tmp'', ''a.png''] \<mapsto> File ''PNG'',
      rel [] \<mapsto> Dir,
      rel [''export''] \<mapsto> Dir,
      rel [''export'', ''img.jpg''] \<mapsto> File ''JPEG'',
      rel [''export'', ''files''] \<mapsto> Dir,
      rel [''export'', ''files'', ''doc.pdf''] \<mapsto> File ''PDF'']"

text \<open>
  The same file system asked for a name of 300 bytes in the export folder and in
  \<^verbatim>\<open>export/files\<close>: the system allows 255 bytes for a name and fails on a longer one in an
  existing directory with \<^verbatim>\<open>ENAMETOOLONG\<close>.
\<close>

definition long_name :: string where
  "long_name = replicate 300 (CHR ''a'')"

definition fs_long :: filesys where
  "fs_long =
     fs_inst(rel [''export'', long_name] \<mapsto> Refused,
             rel [''export'', ''files'', long_name] \<mapsto> Refused)"

section \<open>Notions used in the statements\<close>

text \<open>
  The values a \<^verbatim>\<open>datetime\<close> object can hold, and the display form
  \<^verbatim>\<open>YYYY-MM-DD HH:MM:SS\<close> of a timestamp.
\<close>

definition calendar_ok :: "datetime \<Rightarrow> bool" where
  "calendar_ok dt =
     (1 \<le> dt_year dt \<and> dt_year dt \<le> 9999 \<and> 1 \<le> dt_month dt \<and> dt_month dt \<le> 12
      \<and> 1 \<le> dt_day dt \<and> dt_day dt \<le> days_in_month (dt_year dt) (dt_month dt)
      \<and> dt_hour dt < 24 \<and> dt_minute dt < 60 \<and> dt_second dt < 60 \<and> dt_micro dt < 1000000)"

definition is_digit :: "char \<Rightarrow> bool" where
  "is_digit c = (48 \<le> ord c \<and> ord c \<le> 57)"

definition display_form :: "string \<Rightarrow> bool" where
  "display_form s =
     (length s = 19 \<and> list_all is_digit (take 4 s) \<and> s ! 4 = CHR ''-''
      \<and> list_all is_digit (take 2 (drop 5 s)) \<and> s ! 7 = CHR ''-''
      \<and> list_all is_digit (take 2 (drop 8 s)) \<and> s ! 10 = CHR '' ''
      \<and> list_all is_digit (take 2 (drop 11 s)) \<and> s ! 13 = CHR '':''
      \<and> list_all is_digit (take 2 (drop 14 s)) \<and> s ! 16 = CHR '':''
      \<and> list_all is_digit (take 2 (drop 17 s)))"

text \<open>
  A file system in which the root exists and whatever exists has an existing parent; and
  a later state of a file system that still holds everything an earlier one held and
  refuses no path the earlier one reported as absent. A refused path counts among what a
  file system holds.
\<close>

definition fs_closed :: "filesys \<Rightarrow> bool" where
  "fs_closed fs =
     (fs \<lparr>p_abs = True, p_parts = []\<rparr> \<noteq> None \<and> (\<forall>p. fs p \<noteq> None \<longrightarrow> fs (p_parent p) \<noteq> None))"

definition grows :: "filesys \<Rightarrow> filesys \<Rightarrow> bool" where
  "grows fs fs' =
     (\<forall>p. (fs p \<noteq> None \<longrightarrow> fs' p = fs p) \<and> (fs p = None \<longrightarrow> fs' p \<noteq> Some Refused))"

text \<open>A dictionary without a key, and a message without its \<^verbatim>\<open>from\<close> entry when that entry
  is falsy.\<close>

definition dict_delete :: "string \<Rightarrow> (string \<times> json) list \<Rightarrow> (string \<times> json) list" where
  "dict_delete k d = filter (\<lambda>kv. fst kv \<noteq> k) d"


text \<open>A reference that leads to no file: a falsy value, or a path string for which the
  resolver finds nothing.\<close>

definition dangling :: "filesys \<Rightarrow> pure_path \<Rightarrow> json \<Rightarrow> bool" where
  "dangling fs root v =
     (case v of
        JStr s \<Rightarrow>
          s = [] \<or> (case locate fs root s of Inr src \<Rightarrow> p_exists fs src = Inr False | Inl e \<Rightarrow> False)
      | _ \<Rightarrow> \<not> truthy v)"

text \<open>
  The references of a list of attachments that reach the resolver: the \<^verbatim>\<open>file\<close> entries
  that are truthy, of the elements that are objects. And the non-empty names the resolver
  returns for a list of references, each call on the file system the call before left.
\<close>

fun attachment_refs :: "json list \<Rightarrow> json list" where
  "attachment_refs [] = []"
| "attachment_refs (JDict a # rest) =
     (if truthy (dict_get a ''file'') then dict_get a ''file'' # attachment_refs rest
      else attachment_refs rest)"
| "attachment_refs (v # rest) = attachment_refs rest"

fun resolved_names ::
  "pure_path \<Rightarrow> pure_path \<Rightarrow> json list \<Rightarrow> filesys \<Rightarrow> (string list \<times> filesys) result" where
  "resolved_names root dst [] fs = Inr ([], fs)"
| "resolved_names root dst (v # vs) fs =
     py_bind (copy_media_file v root dst fs) (\<lambda>(copied, fs1).
     py_bind (resolved_names root dst vs fs1) (\<lambda>(names, fs2).
       Inr ((if got_name copied then [the copied] else []) @ names, fs2)))"

section \<open>Basic facts\<close>

lemma py_bind_Inr [simp]: "py_bind (Inr x) f = f x"
  by (simp add: py_bind_def)

lemma py_bind_Inl [simp]: "py_bind (Inl e) f = Inl e"
  by (simp add: py_bind_def)

lemma py_bind_eq_Inr:
  "py_bind r f = Inr y \<longleftrightarrow> (\<exists>x. r = Inr x \<and> f x = Inr y)"
  by (cases r) simp_all

lemma dict_item_get:
  "dict_get d k = v \<Longrightarrow> truthy v \<Longrightarrow> dict_item d k = Inr v"
  by (auto simp: dict_get_def dict_get_default_def dict_item_def split: option.splits)

section \<open>Properties of the text-field renderer\<close>

lemma render_parts_append:
  "render_parts L (xs @ ys) =
     py_bind (render_parts L xs) (\<lambda>a. py_bind (render_parts L ys) (\<lambda>b. Inr (a @ b)))"
  by (induction xs) (auto simp: py_bind_def split: sum.splits)

text \<open>
  C8, as amended. A fragment that is an object with type \<^verbatim>\<open>link\<close>, a non-empty string as
  \<^verbatim>\<open>href\<close> and a string as \<^verbatim>\<open>text\<close>, or no \<^verbatim>\<open>text\<close> at all, renders to exactly one anchor
  element: its \<^verbatim>\<open>href\<close> attribute is the escaped \<^verbatim>\<open>href\<close>, its label the escaped text of the
  fragment (empty when the fragment has no \<^verbatim>\<open>text\<close>), and it opens in a new context. Inside
  a sequence the anchor stands between the renderings of the fragments before and after
  it, and the sequence \<^verbatim>\<open>["see ", {"type":"link","href":"http://x.test","text":"this"}]\<close>
  renders to \<^verbatim>\<open>see <a href="http://x.test" target="_blank">this</a>\<close>.
\<close>

theorem link_fragment_anchor:
  assumes "dict_get d ''type'' = JStr ''link''"
      and "dict_get d ''href'' = JStr h" and "h \<noteq> []"
      and "dict_get_default d ''text'' (JStr []) = JStr t"
      and "render_parts L before = Inr a" and "render_parts L after = Inr b"
  shows "render_part L (JDict d) =
           Inr (''<a href=\"'' @ html_escape_str h @ ''\" target=\"_blank\">''
                  @ html_escape_str t @ ''</a>'')
       \<and> parse_text_field L (JList (before @ JDict d # after)) =
           Inr (concat a @ ''<a href=\"'' @ html_escape_str h @ ''\" target=\"_blank\">''
                  @ html_escape_str t @ ''</a>'' @ concat b)
       \<and> parse_text_field L
             (JList [JStr ''see '',
                     JDict [(''type'', JStr ''link''), (''href'', JStr ''http://x.test''),
                            (''text'', JStr ''this'')]]) =
           Inr ''see <a href=\"http://x.test\" target=\"_blank\">this</a>''"
proof -
  from assms(2,3) have item: "dict_item d ''href'' = Inr (JStr h)"
    by (simp add: dict_item_get)
  have part: "render_part L (JDict d) =
           Inr (''<a href=\"'' @ html_escape_str h @ ''\" target=\"_blank\">''
                  @ html_escape_str t @ ''</a>'')"
    using assms(1-4) item by (simp add: render_part_def html_escape_def)
  have seq: "parse_text_field L (JList (before @ JDict d # after)) =
           Inr (concat a @ ''<a href=\"'' @ html_escape_str h @ ''\" target=\"_blank\">''
                  @ html_escape_str t @ ''</a>'' @ concat b)"
    using part assms(5,6) by (simp add: parse_text_field_def render_parts_append)
  have ex: "parse_text_field L
             (JList [JStr ''see '',
                     JDict [(''type'', JStr ''link''), (''href'', JStr ''http://x.test''),
                            (''text'', JStr ''this'')]]) =
           Inr ''see <a href=\"http://x.test\" target=\"_blank\">this</a>''"
    by (simp add: parse_text_field_def render_part_def html_escape_def html_escape_str_def
          esc_char_def dict_get_def dict_get_default_def dict_item_def)
  from part seq ex show ?thesis
    by simp
qed

theorem link_fragment_anchor_witness:
  "render_part lib_inst
     (JDict [(''type'', JStr ''link''), (''href'', JStr ''http://x.test?a=1&b=2''),
             (''text'', JStr ''<this>'')]) =
     Inr ''<a href=\"http://x.test?a=1&amp;b=2\" target=\"_blank\">&lt;this&gt;</a>''
   \<and> parse_text_field lib_inst
       (JList [JStr ''see '',
               JDict [(''type'', JStr ''link''), (''href'', JStr ''http://x.test?a=1&b=2''),
                      (''text'', JStr ''<this>'')],
               JStr ''!'']) =
     Inr ''see <a href=\"http://x.test?a=1&amp;b=2\" target=\"_blank\">&lt;this&gt;</a>!''"
  using link_fragment_anchor
    [of "[(''type'', JStr ''link''), (''href'', JStr ''http://x.test?a=1&b=2''),
          (''text'', JStr ''<this>'')]"
        "''http://x.test?a=1&b=2''" "''<this>''" lib_inst "[JStr ''see '']" "[''see '']"
        "[JStr ''!'']" "[''!'']"]
  by (simp add: dict_get_def dict_get_default_def render_part_def html_escape_str_def
        esc_char_def)

text \<open>
  C8 as stated fails: a link fragment with a non-empty \<^verbatim>\<open>href\<close> whose \<^verbatim>\<open>text\<close> is \<^verbatim>\<open>null\<close>
  gives no anchor. \<^verbatim>\<open>html.escape\<close> raises \<^verbatim>\<open>AttributeError\<close> on the value, and with it the
  rendering of the whole text field; so does a truthy \<^verbatim>\<open>href\<close> that is a number.
\<close>

theorem link_fragment_counterexample:
  "render_part lib_inst
     (JDict [(''type'', JStr ''link''), (''href'', JStr ''http://x.test''), (''text'', JNull)]) =
     Inl AttributeError
   \<and> parse_text_field lib_inst
       (JList [JStr ''see '',
               JDict [(''type'', JStr ''link''), (''href'', JStr ''http://x.test''),
                      (''text'', JNull)]]) =
     Inl AttributeError
   \<and> render_part lib_inst
       (JDict [(''type'', JStr ''link''), (''href'', JInt 5), (''text'', JStr ''this'')]) =
     Inl AttributeError"
  by (simp add: parse_text_field_def render_part_def html_escape_def dict_get_def
        dict_get_default_def dict_item_def)

section \<open>Properties of the timestamp normalizer\<close>

lemmas char_eval = char_of_def bit_0 ord_def

lemma is_digit_digit_char: "d < 10 \<Longrightarrow> is_digit (digit_char d)"
  by (simp add: is_digit_def digit_char_def ord_def)

lemma str_nat_digits: "list_all is_digit (str_nat n)"
proof (induction n rule: str_nat.induct)
  case (1 n)
  show ?case
  proof (cases "n < 10")
    case True
    then show ?thesis
      by (subst str_nat.simps) (simp add: is_digit_digit_char)
  next
    case False
    with 1 show ?thesis
      by (subst str_nat.simps) (simp add: is_digit_digit_char)
  qed
qed

lemma str_nat_length: "0 < k \<Longrightarrow> n < 10 ^ k \<Longrightarrow> length (str_nat n) \<le> k"
proof (induction n arbitrary: k rule: str_nat.induct)
  case (1 n)
  show ?case
  proof (cases "n < 10")
    case True
    with 1(2) show ?thesis
      by (subst str_nat.simps) simp
  next
    case False
    with 1(2,3) have "1 < k"
      by (cases "k = 1") auto
    then obtain j where k: "k = Suc j" and "0 < j"
      by (cases k) auto
    from 1(3) k have "n div 10 < 10 ^ j"
      by (simp add: less_mult_imp_div_less mult.commute)
    with 1(1) [OF False \<open>0 < j\<close>] have "length (str_nat (n div 10)) \<le> j"
      by simp
    with False k show ?thesis
      by (subst str_nat.simps) simp
  qed
qed

lemma zfill_field:
  assumes "0 < k" and "n < 10 ^ k"
  shows "length (zfill k (str_nat n)) = k" and "list_all is_digit (zfill k (str_nat n))"
proof -
  from assms have "length (str_nat n) \<le> k"
    by (rule str_nat_length)
  then show "length (zfill k (str_nat n)) = k"
    by (simp add: zfill_def)
  have "is_digit (CHR ''0'')"
    by (simp add: is_digit_def ord_def)
  with str_nat_digits [of n] show "list_all is_digit (zfill k (str_nat n))"
    by (auto simp: zfill_def list_all_iff)
qed

lemma str_nat_length_lower: "10 ^ k \<le> n \<Longrightarrow> k < length (str_nat n)"
proof (induction n arbitrary: k rule: str_nat.induct)
  case (1 n)
  show ?case
  proof (cases "n < 10")
    case True
    have "k = 0"
    proof (cases k)
      case (Suc j)
      have "(1::nat) \<le> 10 ^ j"
        by simp
      with Suc 1(2) True show ?thesis
        by simp
    qed simp
    with True show ?thesis
      by (subst str_nat.simps) simp
  next
    case False
    show ?thesis
    proof (cases k)
      case 0
      with False show ?thesis
        by (subst str_nat.simps) simp
    next
      case (Suc j)
      with 1(2) have "10 ^ j \<le> n div 10"
        by (simp add: less_eq_div_iff_mult_less_eq mult.commute)
      with 1(1) [OF False] have "j < length (str_nat (n div 10))"
        by simp
      with False Suc show ?thesis
        by (subst str_nat.simps) simp
    qed
  qed
qed

lemma year_text_four:
  assumes "y < 10000" and "lib_year_padded L \<or> 1000 \<le> y"
  shows "year_text L y = zfill 4 (str_nat y)"
proof (cases "lib_year_padded L")
  case True
  then show ?thesis
    by (simp add: year_text_def)
next
  case False
  with assms have "10 ^ 3 \<le> y" and "y < 10 ^ 4"
    by simp_all
  then have "3 < length (str_nat y)" and "length (str_nat y) \<le> 4"
    by (simp_all add: str_nat_length_lower str_nat_length)
  then have "length (str_nat y) = 4"
    by simp
  with False show ?thesis
    by (simp add: year_text_def zfill_def)
qed

lemma strftime_tail:
  assumes ok: "calendar_ok dt"
  shows "\<exists>rest. strftime L dt = year_text L (dt_year dt) @ rest
           \<and> display_form (zfill 4 (str_nat (dt_year dt)) @ rest)"
proof -
  define a where "a = zfill 4 (str_nat (dt_year dt))"
  define b where "b = zfill 2 (str_nat (dt_month dt))"
  define c where "c = zfill 2 (str_nat (dt_day dt))"
  define d where "d = zfill 2 (str_nat (dt_hour dt))"
  define e where "e = zfill 2 (str_nat (dt_minute dt))"
  define f where "f = zfill 2 (str_nat (dt_second dt))"
  have dim: "days_in_month y m \<le> 31" for y m
    by (simp add: days_in_month_def)
  from ok dim [of "dt_year dt" "dt_month dt"] have
    "dt_year dt < 10 ^ 4" "dt_month dt < 10 ^ 2" "dt_day dt < 10 ^ 2" "dt_hour dt < 10 ^ 2"
    "dt_minute dt < 10 ^ 2" "dt_second dt < 10 ^ 2"
    by (auto simp: calendar_ok_def)
  then have len: "length a = 4" "length b = 2" "length c = 2" "length d = 2" "length e = 2"
      "length f = 2"
    and dig: "list_all is_digit a" "list_all is_digit b" "list_all is_digit c"
      "list_all is_digit d" "list_all is_digit e" "list_all is_digit f"
    unfolding a_def b_def c_def d_def e_def f_def by (simp_all add: zfill_field)
  let ?rest = "''-'' @ b @ ''-'' @ c @ '' '' @ d @ '':'' @ e @ '':'' @ f"
  have "strftime L dt = year_text L (dt_year dt) @ ?rest"
    by (simp add: strftime_def b_def c_def d_def e_def f_def)
  moreover from len dig have "display_form (a @ ?rest)"
    by (simp add: display_form_def nth_append)
  ultimately show ?thesis
    unfolding a_def by blast
qed

lemma strftime_display_form:
  assumes ok: "calendar_ok dt" and four: "lib_year_padded L \<or> 1000 \<le> dt_year dt"
  shows "display_form (strftime L dt)"
proof -
  from ok have "dt_year dt < 10000"
    by (simp add: calendar_ok_def)
  with four have "year_text L (dt_year dt) = zfill 4 (str_nat (dt_year dt))"
    by (simp add: year_text_four)
  with strftime_tail [OF ok, of L] show ?thesis
    by auto
qed

text \<open>
  C7, as amended. On a string, \<^verbatim>\<open>iso_to_local\<close> returns the value of the ISO parser,
  formatted by \<^verbatim>\<open>strftime\<close>, when that parser accepts the string; otherwise the formatted
  value of the parser for the fixed pattern when that one accepts it; otherwise the string
  itself. The formatted text of a calendar value has the shape \<^verbatim>\<open>YYYY-MM-DD HH:MM:SS\<close> when
  the year has four digits or the C library pads the year; in every case it is the year as
  the C library writes it, followed by what follows the year in that shape. On every
  argument, string or not, the function returns and raises nothing.
\<close>

theorem iso_to_local_fallback:
  "(lib_fromisoformat L s = Some dt \<longrightarrow> iso_to_local L (JStr s) = Inr (JStr (strftime L dt)))
   \<and> (lib_fromisoformat L s = None \<longrightarrow> lib_strptime L s = Some dt \<longrightarrow>
        iso_to_local L (JStr s) = Inr (JStr (strftime L dt)))
   \<and> (lib_fromisoformat L s = None \<longrightarrow> lib_strptime L s = None \<longrightarrow>
        iso_to_local L (JStr s) = Inr (JStr s))
   \<and> (calendar_ok dt \<longrightarrow> lib_year_padded L \<or> 1000 \<le> dt_year dt \<longrightarrow>
        display_form (strftime L dt))
   \<and> (calendar_ok dt \<longrightarrow>
        (\<exists>rest. strftime L dt = year_text L (dt_year dt) @ rest
           \<and> display_form (zfill 4 (str_nat (dt_year dt)) @ rest)))
   \<and> year_text L (dt_year dt) =
        (if lib_year_padded L then zfill 4 (str_nat (dt_year dt)) else str_nat (dt_year dt))
   \<and> (\<exists>r. iso_to_local L v = Inr r)"
proof -
  have total: "\<exists>r. iso_to_local L v = Inr r"
    by (auto simp: iso_to_local_def split: sum.splits)
  have parse: "(lib_fromisoformat L s = Some dt \<longrightarrow>
          iso_to_local L (JStr s) = Inr (JStr (strftime L dt)))
     \<and> (lib_fromisoformat L s = None \<longrightarrow> lib_strptime L s = Some dt \<longrightarrow>
          iso_to_local L (JStr s) = Inr (JStr (strftime L dt)))
     \<and> (lib_fromisoformat L s = None \<longrightarrow> lib_strptime L s = None \<longrightarrow>
          iso_to_local L (JStr s) = Inr (JStr s))"
    by (simp add: iso_to_local_def py_fromisoformat_def py_strptime_def)
  from total parse show ?thesis
    using strftime_display_form [of dt L] strftime_tail [of dt L]
    by (simp add: year_text_def)
qed

theorem iso_to_local_fallback_witness:
  "iso_to_local lib_inst (JStr ''2024-01-01T10:00:00'') = Inr (JStr ''2024-01-01 10:00:00'')
   \<and> iso_to_local lib_inst (JStr ''2024-1-5T7:08:09'') = Inr (JStr ''2024-01-05 07:08:09'')
   \<and> iso_to_local lib_inst (JStr ''yesterday'') = Inr (JStr ''yesterday'')
   \<and> display_form ''2024-01-01 10:00:00''"
proof -
  let ?a = "\<lparr>dt_year = 2024, dt_month = 1, dt_day = 1, dt_hour = 10, dt_minute = 0,
              dt_second = 0, dt_micro = 0, dt_offset = None\<rparr>"
  let ?b = "\<lparr>dt_year = 2024, dt_month = 1, dt_day = 5, dt_hour = 7, dt_minute = 8,
              dt_second = 9, dt_micro = 0, dt_offset = None\<rparr>"
  have a: "lib_fromisoformat lib_inst ''2024-01-01T10:00:00'' = Some ?a"
    by (simp add: lib_inst_def fromisoformat_inst_def parse_wall_def field_def digit_val_def
          ord_def days_in_month_def is_leap_def)
  have a': "strftime lib_inst ?a = ''2024-01-01 10:00:00''"
    by (simp add: strftime_def year_text_def lib_inst_def zfill_def str_nat.simps digit_char_def
          char_of_def bit_0)
  have ok: "calendar_ok ?a"
    by (simp add: calendar_ok_def days_in_month_def)
  have b: "lib_fromisoformat lib_inst ''2024-1-5T7:08:09'' = None"
    by (simp add: lib_inst_def fromisoformat_inst_def parse_wall_def parse_offset_def field_def
          digit_val_def ord_def)
  have b': "lib_strptime lib_inst ''2024-1-5T7:08:09'' = Some ?b"
    by (simp add: lib_inst_def strptime_inst_def short_field_def digit_val_def ord_def
          days_in_month_def is_leap_def)
  have b'': "strftime lib_inst ?b = ''2024-01-05 07:08:09''"
    by (simp add: strftime_def year_text_def lib_inst_def zfill_def str_nat.simps digit_char_def
          char_of_def bit_0)
  have c: "lib_fromisoformat lib_inst ''yesterday'' = None"
    by (simp add: lib_inst_def fromisoformat_inst_def parse_wall_def parse_offset_def field_def)
  have c': "lib_strptime lib_inst ''yesterday'' = None"
    by (simp add: lib_inst_def strptime_inst_def)
  from iso_to_local_fallback [of lib_inst "''2024-01-01T10:00:00''" ?a] a a' ok
  have 1: "iso_to_local lib_inst (JStr ''2024-01-01T10:00:00'') = Inr (JStr ''2024-01-01 10:00:00'')"
    and 4: "display_form ''2024-01-01 10:00:00''"
    by simp_all
  from iso_to_local_fallback [of lib_inst "''2024-1-5T7:08:09''" ?b] b b' b''
  have 2: "iso_to_local lib_inst (JStr ''2024-1-5T7:08:09'') = Inr (JStr ''2024-01-05 07:08:09'')"
    by simp
  from iso_to_local_fallback [of lib_inst "''yesterday''"] c c'
  have 3: "iso_to_local lib_inst (JStr ''yesterday'') = Inr (JStr ''yesterday'')"
    by simp
  from 1 2 3 4 show ?thesis
    by simp
qed

text \<open>
  C7 as stated fails where the C library does not pad the year: the timestamp
  \<^verbatim>\<open>0999-12-31T10:00:00\<close> is accepted by the ISO parser and comes back as
  \<^verbatim>\<open>999-12-31 10:00:00\<close>, which has not the shape \<^verbatim>\<open>YYYY-MM-DD HH:MM:SS\<close>.
\<close>

theorem short_year_counterexample:
  "iso_to_local lib_inst (JStr ''0999-12-31T10:00:00'') = Inr (JStr ''999-12-31 10:00:00'')
   \<and> \<not> display_form ''999-12-31 10:00:00''"
proof -
  let ?a = "\<lparr>dt_year = 999, dt_month = 12, dt_day = 31, dt_hour = 10, dt_minute = 0,
              dt_second = 0, dt_micro = 0, dt_offset = None\<rparr>"
  have a: "lib_fromisoformat lib_inst ''0999-12-31T10:00:00'' = Some ?a"
    by (simp add: lib_inst_def fromisoformat_inst_def parse_wall_def field_def digit_val_def
          ord_def days_in_month_def is_leap_def)
  have a': "strftime lib_inst ?a = ''999-12-31 10:00:00''"
    by (simp add: strftime_def year_text_def lib_inst_def zfill_def str_nat.simps digit_char_def
          char_of_def bit_0)
  from a a' have "iso_to_local lib_inst (JStr ''0999-12-31T10:00:00'')
      = Inr (JStr ''999-12-31 10:00:00'')"
    by (simp add: iso_to_local_def py_fromisoformat_def)
  moreover have "\<not> display_form ''999-12-31 10:00:00''"
    by (simp add: display_form_def)
  ultimately show ?thesis
    by simp
qed

section \<open>Properties of the media resolver\<close>

subsection \<open>Paths\<close>

lemma split_on_not_Nil [simp]: "split_on c s \<noteq> []"
  by (induction s) (auto split: list.splits)

lemma split_on_no_sep: "c \<notin> set s \<Longrightarrow> split_on c s = [s]"
  by (induction s) auto

lemma split_on_parts_no_sep: "w \<in> set (split_on c s) \<Longrightarrow> c \<notin> set w"
  by (induction s arbitrary: w) (auto split: if_splits list.splits)

lemma Path_component:
  assumes "w \<in> set (p_parts (Path s))"
  shows "Path w = \<lparr>p_abs = False, p_parts = [w]\<rparr>"
proof -
  from assms have w: "w \<noteq> []" "w \<noteq> ''.''" "CHR ''/'' \<notin> set w"
    by (auto simp: Path_def dest: split_on_parts_no_sep)
  then show ?thesis
    by (cases w) (auto simp: Path_def split_on_no_sep)
qed

lemma p_name_in_parts: "p_parts p \<noteq> [] \<Longrightarrow> p_name p \<in> set (p_parts p)"
  by (simp add: p_name_def)

lemma Path_media: "Path ''media'' = \<lparr>p_abs = False, p_parts = [''media'']\<rparr>"
  by (simp add: Path_def)
lemma Path_files: "Path ''files'' = \<lparr>p_abs = False, p_parts = [''files'']\<rparr>"
  by (simp add: Path_def)
lemma Path_empty: "Path '''' = \<lparr>p_abs = False, p_parts = []\<rparr>"
  by (simp add: Path_def)

lemma joinpath_abs: "p_abs b \<Longrightarrow> joinpath a b = b"
  by (simp add: joinpath_def)

lemmas path_eval = Path_def joinpath_def p_name_def p_parent_def p_exists_def rel_def absolute_def

lemma Path_plain:
  "s \<noteq> [] \<Longrightarrow> s \<noteq> ''.'' \<Longrightarrow> CHR ''/'' \<notin> set s \<Longrightarrow> Path s = \<lparr>p_abs = False, p_parts = [s]\<rparr>"
  by (cases s) (auto simp: Path_def split_on_no_sep)

lemma p_exists_simps:
  "p_exists fs p = Inr True \<longleftrightarrow> (\<exists>c. fs p = Some (File c)) \<or> fs p = Some Dir"
  "p_exists fs p = Inr False \<longleftrightarrow> fs p = None"
  "p_exists fs p = Inl e \<longleftrightarrow> fs p = Some Refused \<and> e = OSError"
  by (auto simp: p_exists_def split: option.splits node.splits)

subsection \<open>Selection of the source\<close>

lemma locate_order:
  "locate fs root s =
     (let r = joinpath root (Path s);
          c1 = joinpath (joinpath root (Path ''media'')) (Path (p_name (Path s)));
          c2 = joinpath (joinpath root (Path ''files'')) (Path (p_name (Path s)));
          c3 = joinpath (joinpath root (Path '''')) (Path (p_name (Path s)))
      in py_bind (p_exists fs r) (\<lambda>there. if there then Inr r else
         py_bind (p_exists fs c1) (\<lambda>there. if there then Inr c1 else
         py_bind (p_exists fs c2) (\<lambda>there. if there then Inr c2 else
         py_bind (p_exists fs c3) (\<lambda>there. if there then Inr c3 else Inr r)))))"
proof -
  have src: "(if \<not> p_abs (Path s) then joinpath root (Path s) else Path s) = joinpath root (Path s)"
    by (simp add: joinpath_abs)
  show ?thesis
    unfolding locate_def Let_def src
    by (cases "p_exists fs (joinpath root (Path s))") (auto simp: Let_def cong: if_cong)
qed

text \<open>
  C4, as amended. For a path string, the source the resolver settles on is the path itself
  when it is absolute and exists. In every case the resolver tests, in this order, the
  path joined to the source root (the path itself when absolute), then
  \<^verbatim>\<open><root>/media/<basename>\<close>, \<^verbatim>\<open><root>/files/<basename>\<close> and \<^verbatim>\<open><root>/<basename>\<close>, stops at
  the first one that exists and takes it. When the path has a last component these three
  are the root followed by \<^verbatim>\<open>media\<close>, \<^verbatim>\<open>files\<close> or nothing, and that component. For a
  non-empty string: when the system reports all four as absent the resolver returns
  \<^verbatim>\<open>None\<close>, changes nothing and raises nothing; when one exists, a returned name is the
  name of the destination built from the selected source; when the system refuses a test
  that is reached, the resolver raises \<^verbatim>\<open>OSError\<close>.
\<close>

theorem media_source_selection:
  "(p_abs (Path s) \<and> p_exists fs (Path s) = Inr True \<longrightarrow> locate fs root s = Inr (Path s))
   \<and> locate fs root s =
       (let r = joinpath root (Path s);
            c1 = joinpath (joinpath root (Path ''media'')) (Path (p_name (Path s)));
            c2 = joinpath (joinpath root (Path ''files'')) (Path (p_name (Path s)));
            c3 = joinpath (joinpath root (Path '''')) (Path (p_name (Path s)))
        in py_bind (p_exists fs r) (\<lambda>there. if there then Inr r else
           py_bind (p_exists fs c1) (\<lambda>there. if there then Inr c1 else
           py_bind (p_exists fs c2) (\<lambda>there. if there then Inr c2 else
           py_bind (p_exists fs c3) (\<lambda>there. if there then Inr c3 else Inr r)))))
   \<and> (p_parts (Path s) \<noteq> [] \<longrightarrow>
        joinpath (joinpath root (Path ''media'')) (Path (p_name (Path s))) =
          \<lparr>p_abs = p_abs root, p_parts = p_parts root @ [''media'', last (p_parts (Path s))]\<rparr>
      \<and> joinpath (joinpath root (Path ''files'')) (Path (p_name (Path s))) =
          \<lparr>p_abs = p_abs root, p_parts = p_parts root @ [''files'', last (p_parts (Path s))]\<rparr>
      \<and> joinpath (joinpath root (Path '''')) (Path (p_name (Path s))) =
          \<lparr>p_abs = p_abs root, p_parts = p_parts root @ [last (p_parts (Path s))]\<rparr>)
   \<and> (s \<noteq> [] \<longrightarrow>
        (\<forall>src. locate fs root s = Inr src \<longrightarrow> p_exists fs src = Inr True \<longrightarrow>
           (\<exists>e. copy_media_file (JStr s) root dst fs = Inl e)
           \<or> (\<exists>fs'. copy_media_file (JStr s) root dst fs =
                  Inr (Some (p_name (joinpath dst (Path (p_name src)))), fs')))
      \<and> (\<forall>src. locate fs root s = Inr src \<longrightarrow> p_exists fs src = Inr False \<longrightarrow>
           copy_media_file (JStr s) root dst fs = Inr (None, fs))
      \<and> (\<forall>e. locate fs root s = Inl e \<longrightarrow> copy_media_file (JStr s) root dst fs = Inl e)
      \<and> (fs (joinpath root (Path s)) = None \<longrightarrow>
         fs (joinpath (joinpath root (Path ''media'')) (Path (p_name (Path s)))) = None \<longrightarrow>
         fs (joinpath (joinpath root (Path ''files'')) (Path (p_name (Path s)))) = None \<longrightarrow>
         fs (joinpath (joinpath root (Path '''')) (Path (p_name (Path s)))) = None \<longrightarrow>
           copy_media_file (JStr s) root dst fs = Inr (None, fs))
      \<and> (fs (joinpath root (Path s)) = Some Refused \<longrightarrow>
           copy_media_file (JStr s) root dst fs = Inl OSError))
   \<and> (p_exists fs p = Inr True \<longleftrightarrow> (\<exists>c. fs p = Some (File c)) \<or> fs p = Some Dir)
   \<and> (p_exists fs p = Inr False \<longleftrightarrow> fs p = None)
   \<and> (p_exists fs p = Inl OSError \<longleftrightarrow> fs p = Some Refused)"
proof -
  note sel = locate_order [of fs root s]
  have direct: "p_abs (Path s) \<and> p_exists fs (Path s) = Inr True \<longrightarrow> locate fs root s = Inr (Path s)"
    by (simp add: locate_def Let_def)
  have cands: "p_parts (Path s) \<noteq> [] \<longrightarrow>
        joinpath (joinpath root (Path ''media'')) (Path (p_name (Path s))) =
          \<lparr>p_abs = p_abs root, p_parts = p_parts root @ [''media'', last (p_parts (Path s))]\<rparr>
      \<and> joinpath (joinpath root (Path ''files'')) (Path (p_name (Path s))) =
          \<lparr>p_abs = p_abs root, p_parts = p_parts root @ [''files'', last (p_parts (Path s))]\<rparr>
      \<and> joinpath (joinpath root (Path '''')) (Path (p_name (Path s))) =
          \<lparr>p_abs = p_abs root, p_parts = p_parts root @ [last (p_parts (Path s))]\<rparr>"
  proof
    assume ne: "p_parts (Path s) \<noteq> []"
    have "Path (p_name (Path s)) = \<lparr>p_abs = False, p_parts = [p_name (Path s)]\<rparr>"
      by (rule Path_component [OF p_name_in_parts [OF ne]])
    moreover from ne have "p_name (Path s) = last (p_parts (Path s))"
      by (simp add: p_name_def)
    ultimately show "joinpath (joinpath root (Path ''media'')) (Path (p_name (Path s))) =
          \<lparr>p_abs = p_abs root, p_parts = p_parts root @ [''media'', last (p_parts (Path s))]\<rparr>
      \<and> joinpath (joinpath root (Path ''files'')) (Path (p_name (Path s))) =
          \<lparr>p_abs = p_abs root, p_parts = p_parts root @ [''files'', last (p_parts (Path s))]\<rparr>
      \<and> joinpath (joinpath root (Path '''')) (Path (p_name (Path s))) =
          \<lparr>p_abs = p_abs root, p_parts = p_parts root @ [last (p_parts (Path s))]\<rparr>"
      by (simp add: joinpath_def Path_media Path_files Path_empty)
  qed
  have found: "\<forall>src. locate fs root s = Inr src \<longrightarrow> p_exists fs src = Inr True \<longrightarrow>
           (\<exists>e. copy_media_file (JStr s) root dst fs = Inl e)
           \<or> (\<exists>fs'. copy_media_file (JStr s) root dst fs =
                  Inr (Some (p_name (joinpath dst (Path (p_name src)))), fs'))" if "s \<noteq> []"
    using that by (auto simp: copy_media_file_def Let_def py_bind_def split: sum.splits)
  have missing: "\<forall>src. locate fs root s = Inr src \<longrightarrow> p_exists fs src = Inr False \<longrightarrow>
           copy_media_file (JStr s) root dst fs = Inr (None, fs)" if "s \<noteq> []"
    using that by (simp add: copy_media_file_def)
  have raised: "\<forall>e. locate fs root s = Inl e \<longrightarrow> copy_media_file (JStr s) root dst fs = Inl e"
    if "s \<noteq> []"
    using that by (simp add: copy_media_file_def)
  have absent: "copy_media_file (JStr s) root dst fs = Inr (None, fs)"
    if "s \<noteq> []" "fs (joinpath root (Path s)) = None"
       "fs (joinpath (joinpath root (Path ''media'')) (Path (p_name (Path s)))) = None"
       "fs (joinpath (joinpath root (Path ''files'')) (Path (p_name (Path s)))) = None"
       "fs (joinpath (joinpath root (Path '''')) (Path (p_name (Path s)))) = None"
  proof -
    from that have "locate fs root s = Inr (joinpath root (Path s))"
      by (simp add: sel Let_def p_exists_def)
    with that show ?thesis
      by (simp add: copy_media_file_def p_exists_def)
  qed
  have refused: "copy_media_file (JStr s) root dst fs = Inl OSError"
    if "s \<noteq> []" "fs (joinpath root (Path s)) = Some Refused"
  proof -
    from that have "locate fs root s = Inl OSError"
      by (simp add: sel Let_def p_exists_def)
    with that show ?thesis
      by (simp add: copy_media_file_def)
  qed
  from direct sel cands found missing raised absent refused show ?thesis
    by (simp add: p_exists_simps)
qed

theorem media_source_selection_witness:
  "locate fs_inst (rel [''export'']) ''/tmp/a.png'' = Inr (absolute [''tmp'', ''a.png''])
   \<and> locate fs_inst (rel [''export'']) ''photos/doc.pdf''
       = Inr (rel [''export'', ''files'', ''doc.pdf''])
   \<and> copy_media_file (JStr ''missing.bin'') (rel [''export'']) (rel [''out'', ''media'']) fs_inst
       = Inr (None, fs_inst)
   \<and> copy_media_file (JStr ''locked/a.png'') (rel [''export'']) (rel [''out'', ''media''])
         (fs_inst(rel [''export'', ''locked'', ''a.png''] \<mapsto> Refused))
       = Inl OSError"
proof -
  have 1: "locate fs_inst (rel [''export'']) ''/tmp/a.png'' = Inr (absolute [''tmp'', ''a.png''])"
    using media_source_selection [of "''/tmp/a.png''" fs_inst "rel [''export'']"]
    by (simp add: path_eval fs_inst_def)
  have 2: "locate fs_inst (rel [''export'']) ''photos/doc.pdf''
             = Inr (rel [''export'', ''files'', ''doc.pdf''])"
    using media_source_selection [of "''photos/doc.pdf''" fs_inst "rel [''export'']"]
    by (simp add: path_eval fs_inst_def)
  have 3: "copy_media_file (JStr ''missing.bin'') (rel [''export'']) (rel [''out'', ''media''])
             fs_inst = Inr (None, fs_inst)"
    using media_source_selection
      [of "''missing.bin''" fs_inst "rel [''export'']" "rel [''out'', ''media'']"]
    by (simp add: path_eval fs_inst_def)
  have 4: "copy_media_file (JStr ''locked/a.png'') (rel [''export'']) (rel [''out'', ''media''])
         (fs_inst(rel [''export'', ''locked'', ''a.png''] \<mapsto> Refused)) = Inl OSError"
    using media_source_selection
      [of "''locked/a.png''" "fs_inst(rel [''export'', ''locked'', ''a.png''] \<mapsto> Refused)"
          "rel [''export'']" "rel [''out'', ''media'']"]
    by (simp add: path_eval)
  from 1 2 3 4 show ?thesis
    by simp
qed

text \<open>
  C4 as stated fails: for the path string of 300 letters no candidate exists, and the
  resolver does not return \<^verbatim>\<open>None\<close>. Its first existence test, on the path inside the export
  folder, raises \<^verbatim>\<open>OSError\<close>, which leaves the resolver.
\<close>

lemma Path_long_name: "Path long_name = \<lparr>p_abs = False, p_parts = [long_name]\<rparr>"
proof (rule Path_plain)
  show "long_name \<noteq> []"
    by (simp add: long_name_def)
  show "long_name \<noteq> ''.''"
  proof
    assume "long_name = ''.''"
    then have "length long_name = length ''.''"
      by (rule arg_cong)
    then show False
      by (simp add: long_name_def)
  qed
  show "CHR ''/'' \<notin> set long_name"
    by (simp add: long_name_def)
qed

theorem refused_probe_counterexample:
  "long_name \<noteq> []
   \<and> fs_long (rel [''export'', long_name]) = Some Refused
   \<and> fs_long (rel [''export'', ''media'', long_name]) = None
   \<and> fs_long (rel [''export'', ''files'', long_name]) = Some Refused
   \<and> copy_media_file (JStr long_name) (rel [''export'']) (rel [''out'', ''media'']) fs_long
       = Inl OSError"
proof -
  have ne: "long_name \<noteq> []" and len: "length long_name = 300"
    by (simp_all add: long_name_def)
  have other: "long_name \<noteq> w" if "length w < 300" for w
    using that len by auto
  have first: "fs_long (rel [''export'', long_name]) = Some Refused"
    by (simp add: fs_long_def rel_def)
  have none: "fs_long (rel [''export'', ''media'', long_name]) = None"
    "fs_long (rel [''export'', ''files'', long_name]) = Some Refused"
    by (simp_all add: fs_long_def fs_inst_def rel_def absolute_def other)
  from first have "locate fs_long (rel [''export'']) long_name = Inl OSError"
    by (simp add: locate_def Path_long_name joinpath_def rel_def p_exists_def)
  with ne have "copy_media_file (JStr long_name) (rel [''export'']) (rel [''out'', ''media''])
      fs_long = Inl OSError"
    by (simp add: copy_media_file_def)
  with ne first none show ?thesis
    by simp
qed

subsection \<open>What a successful call leaves behind\<close>

lemma grows_refl [simp]: "grows fs fs"
  by (simp add: grows_def)

lemma grows_trans: "grows a b \<Longrightarrow> grows b c \<Longrightarrow> grows a c"
  unfolding grows_def by metis

lemma grows_same: "grows fs fs' \<Longrightarrow> fs p \<noteq> None \<Longrightarrow> fs' p = fs p"
  by (simp add: grows_def)

lemma grows_exists: "grows fs fs' \<Longrightarrow> p_exists fs p = Inr True \<Longrightarrow> p_exists fs' p = Inr True"
  by (auto simp: grows_def p_exists_simps)

lemma grows_answers:
  "grows fs fs' \<Longrightarrow> p_exists fs p = Inr b \<Longrightarrow> \<exists>b'. p_exists fs' p = Inr b'"
  by (cases "fs p") (auto simp: grows_def p_exists_def split: option.splits node.splits)

lemma os_mkdir_Inr: "os_mkdir fs p = Inr fs' \<Longrightarrow> grows fs fs' \<and> fs' p = Some Dir"
  by (auto simp: os_mkdir_def grows_def split: option.splits node.splits if_splits)

lemma mkdir_exist_ok_Inr: "mkdir_exist_ok fs p = Inr fs' \<Longrightarrow> grows fs fs' \<and> fs' p = Some Dir"
  by (auto simp: mkdir_exist_ok_def split: sum.splits if_splits dest: os_mkdir_Inr)

lemma mkdir_parents_Inr: "mkdir_parents fs p = Inr fs' \<Longrightarrow> grows fs fs' \<and> fs' p = Some Dir"
proof (induction fs p arbitrary: fs' rule: mkdir_parents.induct)
  case (1 fs p)
  show ?case
  proof (cases "os_mkdir fs p")
    case (Inr a)
    with 1(2) show ?thesis
      by (subst (asm) mkdir_parents.simps) (auto dest: os_mkdir_Inr)
  next
    case (Inl e)
    show ?thesis
    proof (cases "e = FileNotFoundError \<and> p_parent p \<noteq> p")
      case True
      with Inl 1(2) obtain fs1 where a: "mkdir_parents fs (p_parent p) = Inr fs1"
        and b: "mkdir_exist_ok fs1 p = Inr fs'"
        by (subst (asm) mkdir_parents.simps) (auto simp: py_bind_eq_Inr)
      from 1(1) [OF Inl _ _ a] True have "grows fs fs1" by simp
      with mkdir_exist_ok_Inr [OF b] show ?thesis
        by (auto intro: grows_trans)
    next
      case False
      with Inl 1(2) show ?thesis
        by (subst (asm) mkdir_parents.simps) (auto split: if_splits)
    qed
  qed
qed

lemma ensure_dir_Inr: "ensure_dir fs p = Inr fs' \<Longrightarrow> grows fs fs' \<and> p_exists fs' p = Inr True"
  by (auto simp: ensure_dir_def py_bind_eq_Inr p_exists_simps split: if_splits
           dest: mkdir_parents_Inr)

lemma copy2_Inr:
  "copy2 fs src dst = Inr fs' \<Longrightarrow> fs dst = None \<Longrightarrow> grows fs fs' \<and> p_exists fs' dst = Inr True"
  by (auto simp: copy2_def open_write_def grows_def Let_def p_exists_simps
           split: option.splits node.splits if_splits)

lemma copy_media_file_Some:
  assumes "copy_media_file v root dst fs = Inr (Some n, fs1)"
  obtains s src where "v = JStr s" and "s \<noteq> []"
    and "locate fs root s = Inr src" and "p_exists fs src = Inr True"
    and "n = p_name (joinpath dst (Path (p_name src)))"
    and "grows fs fs1" and "p_exists fs1 dst = Inr True"
    and "p_exists fs1 (joinpath dst (Path (p_name src))) = Inr True"
proof -
  from assms have tr: "truthy v"
    by (auto simp: copy_media_file_def split: if_splits)
  with assms obtain s where v: "v = JStr s"
    by (cases v) (auto simp: copy_media_file_def)
  with tr have s: "s \<noteq> []" by simp
  from assms v s obtain src there where loc: "locate fs root s = Inr src"
    and th: "p_exists fs src = Inr there"
    and rest: "(if \<not> there then Inr (None, fs)
                else py_bind (ensure_dir fs dst) (\<lambda>fsA.
                  let target = joinpath dst (Path (p_name src))
                  in py_bind (p_exists fsA target) (\<lambda>copied_before.
                       if \<not> copied_before
                       then py_bind (copy2 fsA src target) (\<lambda>fs2. Inr (Some (p_name target), fs2))
                       else Inr (Some (p_name target), fsA)))) = Inr (Some n, fs1)"
    by (auto simp: copy_media_file_def py_bind_eq_Inr)
  let ?dst = "joinpath dst (Path (p_name src))"
  from rest have ex: "there"
    by (auto split: if_splits)
  with rest obtain fsA before where A: "ensure_dir fs dst = Inr fsA"
    and C: "p_exists fsA ?dst = Inr before"
    and B: "(if \<not> before
             then py_bind (copy2 fsA src ?dst) (\<lambda>fs2. Inr (Some (p_name ?dst), fs2))
             else Inr (Some (p_name ?dst), fsA)) = Inr (Some n, fs1)"
    by (auto simp: py_bind_eq_Inr Let_def)
  from ensure_dir_Inr [OF A] have gA: "grows fs fsA" and dA: "p_exists fsA dst = Inr True"
    by simp_all
  have "n = p_name ?dst \<and> grows fsA fs1 \<and> p_exists fs1 ?dst = Inr True"
  proof (cases before)
    case True
    with B C show ?thesis by simp
  next
    case False
    with B obtain fs2 where "copy2 fsA src ?dst = Inr fs2" and "n = p_name ?dst" and "fs2 = fs1"
      by (auto simp: py_bind_eq_Inr)
    moreover from False C have "fsA ?dst = None"
      by (simp add: p_exists_simps)
    ultimately show ?thesis
      using copy2_Inr [of fsA src ?dst fs1] by simp
  qed
  with gA dA have "n = p_name ?dst" "grows fs fs1" "p_exists fs1 dst = Inr True"
    "p_exists fs1 ?dst = Inr True"
    by (auto intro: grows_trans grows_exists)
  with v s loc th ex show ?thesis
    by (intro that [of s src]) simp_all
qed

lemma copy_media_file_None:
  "copy_media_file v root dst fs = Inr (None, fs1) \<Longrightarrow> fs1 = fs"
  by (auto simp: copy_media_file_def Let_def py_bind_eq_Inr split: if_splits json.splits)

lemma locate_cases:
  assumes "locate fs root s = Inr src"
  shows "src \<in>
     {joinpath root (Path s),
      joinpath (joinpath root (Path ''media'')) (Path (p_name (Path s))),
      joinpath (joinpath root (Path ''files'')) (Path (p_name (Path s))),
      joinpath (joinpath root (Path '''')) (Path (p_name (Path s)))}"
  using assms unfolding locate_order Let_def
  by (auto simp: py_bind_eq_Inr split: if_splits)

lemma locate_direct:
  "p_exists fs (joinpath root (Path s)) = Inr True \<Longrightarrow>
   locate fs root s = Inr (joinpath root (Path s))"
  by (simp add: locate_order Let_def)

text \<open>A source found once is found again after the file system has grown: the tests that
  were answered are answered again, and the search stops no later than before.\<close>

lemma locate_exists_mono:
  assumes g: "grows fs fs1" and loc: "locate fs root s = Inr src"
    and ex: "p_exists fs src = Inr True"
  shows "\<exists>src1. locate fs1 root s = Inr src1 \<and> p_exists fs1 src1 = Inr True"
proof -
  let ?r = "joinpath root (Path s)"
  let ?c1 = "joinpath (joinpath root (Path ''media'')) (Path (p_name (Path s)))"
  let ?c2 = "joinpath (joinpath root (Path ''files'')) (Path (p_name (Path s)))"
  let ?c3 = "joinpath (joinpath root (Path '''')) (Path (p_name (Path s)))"
  have step: "\<exists>b'. p_exists fs1 p = Inr b' \<and> (b \<longrightarrow> b')" if "p_exists fs p = Inr b" for p b
    using grows_answers [OF g that] grows_exists [OF g, of p] that by auto
  from loc ex consider
      (r) "p_exists fs ?r = Inr True"
    | (c1) "p_exists fs ?r = Inr False" "p_exists fs ?c1 = Inr True"
    | (c2) "p_exists fs ?r = Inr False" "p_exists fs ?c1 = Inr False" "p_exists fs ?c2 = Inr True"
    | (c3) "p_exists fs ?r = Inr False" "p_exists fs ?c1 = Inr False" "p_exists fs ?c2 = Inr False"
           "p_exists fs ?c3 = Inr True"
    unfolding locate_order Let_def
    by (auto simp: py_bind_eq_Inr split: if_splits)
  then show ?thesis
  proof cases
    case r
    with step [of ?r True] show ?thesis
      by (auto simp: locate_order Let_def)
  next
    case c1
    with step [of ?r False] step [of ?c1 True] show ?thesis
      by (auto simp: locate_order Let_def)
  next
    case c2
    with step [of ?r False] step [of ?c1 False] step [of ?c2 True] show ?thesis
      by (auto simp: locate_order Let_def)
  next
    case c3
    with step [of ?r False] step [of ?c1 False] step [of ?c2 False] step [of ?c3 True]
    show ?thesis
      by (auto simp: locate_order Let_def)
  qed
qed

lemma candidate_names:
  assumes ne: "p_parts (Path s) \<noteq> []" and loc: "locate fs root s = Inr src"
  shows "p_name src = p_name (Path s)"
proof -
  have "Path (p_name (Path s)) = \<lparr>p_abs = False, p_parts = [p_name (Path s)]\<rparr>"
    by (rule Path_component [OF p_name_in_parts [OF ne]])
  with ne locate_cases [OF loc] show ?thesis
    by (auto simp: joinpath_def p_name_def Path_media Path_files Path_empty split: if_splits)
qed

lemma locate_dir_reference:
  assumes cl: "fs_closed fs" and e: "p_parts (Path s) = []"
    and loc: "locate fs root s = Inr src" and ex: "p_exists fs src = Inr True"
  shows "p_exists fs (joinpath root (Path s)) = Inr True"
proof (rule ccontr)
  assume no: "p_exists fs (joinpath root (Path s)) \<noteq> Inr True"
  from loc obtain b where "p_exists fs (joinpath root (Path s)) = Inr b"
    unfolding locate_order Let_def by (auto simp: py_bind_eq_Inr)
  with no have absent: "fs (joinpath root (Path s)) = None"
    by (cases b) (simp_all add: p_exists_simps)
  have P: "Path s = \<lparr>p_abs = p_abs (Path s), p_parts = []\<rparr>"
    using e by (cases "Path s") simp
  from cl have top: "fs \<lparr>p_abs = True, p_parts = []\<rparr> \<noteq> None"
    and up: "\<And>p. fs (p_parent p) = None \<Longrightarrow> fs p = None"
    by (auto simp: fs_closed_def)
  from absent top P have rel: "\<not> p_abs (Path s)"
    by (auto simp: joinpath_def split: if_splits)
  with e have r: "joinpath root (Path s) = root"
    by (cases root) (simp add: joinpath_def)
  from e have nm: "p_name (Path s) = []"
    by (simp add: p_name_def)
  have c1: "p_parent (joinpath (joinpath root (Path ''media'')) (Path '''')) = root"
   and c2: "p_parent (joinpath (joinpath root (Path ''files'')) (Path '''')) = root"
   and c3: "joinpath (joinpath root (Path '''')) (Path '''') = root"
    by (cases root; simp add: joinpath_def p_parent_def Path_media Path_files Path_empty)+
  from absent r have "fs root = None" by simp
  with up [of "joinpath (joinpath root (Path ''media'')) (Path '''')"]
       up [of "joinpath (joinpath root (Path ''files'')) (Path '''')"] c1 c2 c3
  have "fs (joinpath (joinpath root (Path ''media'')) (Path '''')) = None"
       "fs (joinpath (joinpath root (Path ''files'')) (Path '''')) = None"
       "fs (joinpath (joinpath root (Path '''')) (Path '''')) = None"
    by auto
  with absent nm have "locate fs root s = Inr (joinpath root (Path s))"
    by (simp add: locate_order Let_def p_exists_def)
  with loc ex absent show False
    by (simp add: p_exists_def)
qed

lemma locate_name_stable:
  assumes cl: "fs_closed fs" and g: "grows fs fs1"
    and loc: "locate fs root s = Inr src" and ex: "p_exists fs src = Inr True"
    and loc1: "locate fs1 root s = Inr src1"
  shows "p_name src1 = p_name src"
proof (cases "p_parts (Path s) = []")
  case False
  with loc loc1 show ?thesis by (simp add: candidate_names)
next
  case True
  from locate_dir_reference [OF cl True loc ex]
  have a: "p_exists fs (joinpath root (Path s)) = Inr True" .
  with g have b: "p_exists fs1 (joinpath root (Path s)) = Inr True" by (rule grows_exists)
  from a b loc loc1 show ?thesis
    by (simp add: locate_direct)
qed

text \<open>
  C5. In a file system where the root exists and every existing path has an existing
  parent, a call of the resolver that returned can be repeated with the same arguments:
  the second call returns the same result, the same base name when the first returned
  one, and leaves the file system exactly as the first call left it, so it copies nothing
  and does not touch the destination file. The first call itself changed nothing that
  existed before it, and nothing at all when it found no file.
\<close>

theorem copy_media_file_idempotent:
  assumes cl: "fs_closed fs" and first: "copy_media_file v root dst fs = Inr (r, fs1)"
  shows "copy_media_file v root dst fs1 = Inr (r, fs1)
       \<and> (\<forall>p. fs p \<noteq> None \<longrightarrow> fs1 p = fs p)
       \<and> (r = None \<longrightarrow> fs1 = fs)"
proof (cases r)
  case None
  with first have "fs1 = fs"
    by (auto dest: copy_media_file_None)
  with first None show ?thesis
    by simp
next
  case (Some n)
  with first obtain s src where v: "v = JStr s" and s: "s \<noteq> []"
    and loc: "locate fs root s = Inr src" and ex: "p_exists fs src = Inr True"
    and n: "n = p_name (joinpath dst (Path (p_name src)))"
    and g: "grows fs fs1" and d: "p_exists fs1 dst = Inr True"
    and t: "p_exists fs1 (joinpath dst (Path (p_name src))) = Inr True"
    by (auto elim: copy_media_file_Some)
  from locate_exists_mono [OF g loc ex] obtain src1
    where loc1: "locate fs1 root s = Inr src1" and ex1: "p_exists fs1 src1 = Inr True"
    by blast
  from locate_name_stable [OF cl g loc ex loc1]
  have nm: "p_name src1 = p_name src" .
  from v s loc1 ex1 nm d t n have "copy_media_file v root dst fs1 = Inr (Some n, fs1)"
    by (simp add: copy_media_file_def Let_def ensure_dir_def)
  with g Some show ?thesis
    by (simp add: grows_def)
qed

lemma fs_inst_closed: "fs_closed fs_inst"
  unfolding fs_closed_def
proof (intro conjI allI impI)
  show "fs_inst \<lparr>p_abs = True, p_parts = []\<rparr> \<noteq> None"
    by (simp add: fs_inst_def absolute_def rel_def)
next
  fix p assume "fs_inst p \<noteq> None"
  then have "p \<in> {absolute [], absolute [''tmp''], absolute [''tmp'', ''a.png''], rel [],
      rel [''export''], rel [''export'', ''img.jpg''], rel [''export'', ''files''],
      rel [''export'', ''files'', ''doc.pdf'']}"
    by (auto simp: fs_inst_def split: if_splits)
  then show "fs_inst (p_parent p) \<noteq> None"
    by (auto simp: fs_inst_def absolute_def rel_def p_parent_def)
qed

lemma first_call:
  "copy_media_file (JStr ''img.jpg'') (rel [''export'']) (rel [''out'', ''media'']) fs_inst =
     Inr (Some ''img.jpg'',
          fs_inst(rel [''out''] \<mapsto> Dir, rel [''out'', ''media''] \<mapsto> Dir,
                  rel [''out'', ''media'', ''img.jpg''] \<mapsto> File ''JPEG''))"
  by (simp add: copy_media_file_def locate_def ensure_dir_def mkdir_parents.simps os_mkdir_def
        mkdir_exist_ok_def copy2_def open_write_def path_eval fs_inst_def Let_def)

theorem copy_media_file_idempotent_witness:
  "copy_media_file (JStr ''img.jpg'') (rel [''export'']) (rel [''out'', ''media''])
     (fs_inst(rel [''out''] \<mapsto> Dir, rel [''out'', ''media''] \<mapsto> Dir,
              rel [''out'', ''media'', ''img.jpg''] \<mapsto> File ''JPEG'')) =
   Inr (Some ''img.jpg'',
        fs_inst(rel [''out''] \<mapsto> Dir, rel [''out'', ''media''] \<mapsto> Dir,
                rel [''out'', ''media'', ''img.jpg''] \<mapsto> File ''JPEG''))"
  using copy_media_file_idempotent [OF fs_inst_closed first_call] by simp

section \<open>Properties of the message renderer\<close>

lemma dict_get_single [simp]: "dict_get [(k, v)] k = v"
  by (simp add: dict_get_def dict_get_default_def)

lemma dict_item_single [simp]: "dict_item [(k, v)] k = Inr v"
  by (simp add: dict_item_def)

lemma media_block_object:
  assumes "dict_get m ''media'' = JDict md" and "md \<noteq> []"
  shows "media_block L e root dst m fs =
           (if truthy (media_possible md)
            then py_bind (copy_media_file (media_possible md) root dst fs) (\<lambda>(copied, fs').
                   if got_name copied
                   then Inr ([by_extension L e (the copied) '''' caption_media], fs')
                   else Inr ([], fs'))
            else Inr ([], fs))"
proof -
  from assms have "dict_item m ''media'' = Inr (JDict md)"
    by (simp add: dict_item_get)
  with assms show ?thesis
    by (simp add: media_block_def Let_def)
qed

text \<open>
  C9. When the \<^verbatim>\<open>media\<close> value of a message is a non-empty object, the value handed to
  the resolver is the first truthy one of its \<^verbatim>\<open>file\<close>, \<^verbatim>\<open>photo\<close>, \<^verbatim>\<open>path\<close> and \<^verbatim>\<open>document\<close>
  entries, in that order. The block is the same as for an object that holds nothing but
  that value under \<^verbatim>\<open>file\<close>, so the other entries are ignored; with no truthy entry
  nothing is emitted. A name returned for the selected value gives one block, and no run
  produces more than one block from the object.
\<close>

theorem media_object_single_block:
  assumes "dict_get m ''media'' = JDict md" and "md \<noteq> []"
  shows "media_possible md =
           (if truthy (dict_get md ''file'') then dict_get md ''file''
            else if truthy (dict_get md ''photo'') then dict_get md ''photo''
            else if truthy (dict_get md ''path'') then dict_get md ''path''
            else dict_get md ''document'')
       \<and> (truthy (media_possible md) \<longrightarrow>
            media_block L e root dst m fs =
              media_block L e root dst [(''media'', JDict [(''file'', media_possible md)])] fs)
       \<and> (\<not> truthy (media_possible md) \<longrightarrow> media_block L e root dst m fs = Inr ([], fs))
       \<and> (\<forall>n fs'. copy_media_file (media_possible md) root dst fs = Inr (Some n, fs') \<longrightarrow> n \<noteq> [] \<longrightarrow>
            media_block L e root dst m fs = Inr ([by_extension L e n '''' caption_media], fs'))
       \<and> (\<forall>blocks fs'. media_block L e root dst m fs = Inr (blocks, fs') \<longrightarrow> length blocks \<le> 1)"
proof -
  let ?sel = "media_possible md"
  have sel: "?sel =
           (if truthy (dict_get md ''file'') then dict_get md ''file''
            else if truthy (dict_get md ''photo'') then dict_get md ''photo''
            else if truthy (dict_get md ''path'') then dict_get md ''path''
            else dict_get md ''document'')"
    by (simp add: media_possible_def py_or_def)
  note blk = media_block_object [OF assms, of L e root dst fs]
  have one: "media_possible [(''file'', ?sel)] = ?sel" if "truthy ?sel"
    using that by (simp add: media_possible_def py_or_def)
  have same: "truthy ?sel \<longrightarrow>
            media_block L e root dst m fs =
              media_block L e root dst [(''media'', JDict [(''file'', ?sel)])] fs"
    using blk one by (simp add: media_block_object [of _ "[(''file'', ?sel)]"])
  have none: "\<not> truthy ?sel \<longrightarrow> media_block L e root dst m fs = Inr ([], fs)"
    using blk by simp
  have res: "\<forall>n fs'. copy_media_file ?sel root dst fs = Inr (Some n, fs') \<longrightarrow> n \<noteq> [] \<longrightarrow>
            media_block L e root dst m fs = Inr ([by_extension L e n '''' caption_media], fs')"
    using blk by (auto simp: got_name_def copy_media_file_def)
  have len: "\<forall>blocks fs'. media_block L e root dst m fs = Inr (blocks, fs') \<longrightarrow> length blocks \<le> 1"
    using blk by (auto simp: py_bind_eq_Inr split: if_splits)
  from sel same none res len show ?thesis
    by blast
qed

lemmas ext_eval = is_image_name_def image_exts_def py_lower_def is_ascii_def lower_char_def
  char_eval

theorem media_object_single_block_witness:
  "media_block lib_inst ''media'' (rel [''export'']) (rel [''out'', ''media''])
     [(''media'', JDict [(''photo'', JStr ''img.jpg''), (''path'', JStr ''doc.pdf''),
                         (''document'', JStr ''doc.pdf'')])] fs_inst =
   Inr ([media_img ''media'' ''img.jpg'' ''''],
        fs_inst(rel [''out''] \<mapsto> Dir, rel [''out'', ''media''] \<mapsto> Dir,
                rel [''out'', ''media'', ''img.jpg''] \<mapsto> File ''JPEG''))"
proof -
  let ?md = "[(''photo'', JStr ''img.jpg''), (''path'', JStr ''doc.pdf''),
              (''document'', JStr ''doc.pdf'')]"
  let ?after = "fs_inst(rel [''out''] \<mapsto> Dir, rel [''out'', ''media''] \<mapsto> Dir,
                rel [''out'', ''media'', ''img.jpg''] \<mapsto> File ''JPEG'')"
  have sel: "media_possible ?md = JStr ''img.jpg''"
    by (simp add: media_possible_def py_or_def dict_get_def dict_get_default_def)
  have img: "by_extension lib_inst ''media'' ''img.jpg'' '''' caption_media = media_img ''media'' ''img.jpg'' ''''"
    by (simp add: by_extension_def ext_eval)
  have m: "dict_get [(''media'', JDict ?md)] ''media'' = JDict ?md" and ne: "?md \<noteq> []"
    by simp_all
  from media_object_single_block [OF m ne, of lib_inst "''media''" "rel [''export'']"
      "rel [''out'', ''media'']" fs_inst]
  have "copy_media_file (media_possible ?md) (rel [''export'']) (rel [''out'', ''media'']) fs_inst
          = Inr (Some ''img.jpg'', ?after) \<longrightarrow>
        media_block lib_inst ''media'' (rel [''export'']) (rel [''out'', ''media''])
          [(''media'', JDict ?md)] fs_inst =
        Inr ([by_extension lib_inst ''media'' ''img.jpg'' '''' caption_media], ?after)"
    by blast
  with sel first_call img show ?thesis
    by simp
qed

lemma copy_media_file_truthy:
  "copy_media_file v root dst fs = Inr (Some n, fs') \<Longrightarrow> truthy v"
  by (auto simp: copy_media_file_def split: if_splits)

lemma got_name_Some [simp]: "got_name (Some n) = (n \<noteq> [])"
  by (simp add: got_name_def)

lemma got_name_None [simp]: "got_name None = False"
  by (simp add: got_name_def)

lemma photo_block_name:
  assumes "copy_media_file (dict_get m ''photo'') root dst fs = Inr (Some n, fs')" and "n \<noteq> []"
  shows "photo_block e root dst m fs = Inr ([media_img e n ('' alt='photo'' @ [CHR 0x27])], fs')"
proof -
  from assms(1) have t: "truthy (dict_get m ''photo'')"
    by (rule copy_media_file_truthy)
  then have "dict_item m ''photo'' = Inr (dict_get m ''photo'')"
    by (simp add: dict_item_get)
  with t assms show ?thesis
    by (simp add: photo_block_def)
qed

lemma file_block_name:
  assumes "copy_media_file (dict_get m ''file'') root dst fs = Inr (Some n, fs')" and "n \<noteq> []"
  shows "file_block L e root dst m fs =
           Inr ([by_extension L e n ('' alt='file'' @ [CHR 0x27]) caption_file], fs')"
proof -
  from assms(1) have t: "truthy (dict_get m ''file'')"
    by (rule copy_media_file_truthy)
  then have "dict_item m ''file'' = Inr (dict_get m ''file'')"
    by (simp add: dict_item_get)
  with t assms show ?thesis
    by (simp add: file_block_def)
qed

lemma document_block_string:
  assumes "dict_get m ''document'' = JStr s"
    and "copy_media_file (JStr s) root dst fs = Inr (Some n, fs')" and "n \<noteq> []"
  shows "document_block L e root dst m fs = Inr ([by_extension L e n '''' caption_document], fs')"
proof -
  from assms(2) have "truthy (JStr s)"
    by (rule copy_media_file_truthy)
  with assms(1) have "truthy (dict_get m ''document'')"
    and "dict_item m ''document'' = Inr (JStr s)"
    by (simp_all add: dict_item_get)
  with assms show ?thesis
    by (simp add: document_block_def)
qed

lemma document_block_object:
  assumes "dict_get m ''document'' = JDict dd"
    and "copy_media_file (dict_get dd ''file'') root dst fs = Inr (Some n, fs')" and "n \<noteq> []"
  shows "document_block L e root dst m fs = Inr ([by_extension L e n '''' caption_document], fs')"
proof -
  from assms(2) have t: "truthy (dict_get dd ''file'')"
    by (rule copy_media_file_truthy)
  then have "dd \<noteq> []"
    by (auto simp: dict_get_def dict_get_default_def)
  with assms(1) have "truthy (dict_get m ''document'')"
    and "dict_item m ''document'' = Inr (JDict dd)"
    by (simp_all add: dict_item_get)
  with t assms show ?thesis
    by (simp add: document_block_def)
qed

lemma media_block_string:
  assumes "dict_get m ''media'' = JStr s"
    and "copy_media_file (JStr s) root dst fs = Inr (Some n, fs')" and "n \<noteq> []"
  shows "media_block L e root dst m fs = Inr ([by_extension L e n '''' caption_media], fs')"
proof -
  from assms(2) have "truthy (JStr s)"
    by (rule copy_media_file_truthy)
  with assms(1) have "truthy (dict_get m ''media'')"
    and "dict_item m ''media'' = Inr (JStr s)"
    by (simp_all add: dict_item_get)
  with assms show ?thesis
    by (simp add: media_block_def)
qed

lemma media_block_object_name:
  assumes "dict_get m ''media'' = JDict md"
    and "copy_media_file (media_possible md) root dst fs = Inr (Some n, fs')" and "n \<noteq> []"
  shows "media_block L e root dst m fs = Inr ([by_extension L e n '''' caption_media], fs')"
proof -
  from assms(2) have t: "truthy (media_possible md)"
    by (rule copy_media_file_truthy)
  then have "md \<noteq> []"
    by (auto simp: media_possible_def py_or_def dict_get_def dict_get_default_def split: if_splits)
  with assms t show ?thesis
    by (simp add: media_block_object)
qed

lemma attachments_block_first:
  assumes "dict_get m ''attachments'' = JList (JDict a # rest)"
    and "copy_media_file (dict_get a ''file'') root dst fs = Inr (Some n, fs')" and "n \<noteq> []"
    and "attachments_loop e root dst rest fs' = Inr (others, fs'')"
  shows "attachments_block e root dst m fs = Inr (media_link e n '''' # others, fs'')"
proof -
  from assms(2) have t: "truthy (dict_get a ''file'')"
    by (rule copy_media_file_truthy)
  then have i: "dict_item a ''file'' = Inr (dict_get a ''file'')"
    by (simp add: dict_item_get)
  from assms(1) have "truthy (dict_get m ''attachments'')"
    and "dict_item m ''attachments'' = Inr (JList (JDict a # rest))"
    by (simp_all add: dict_item_get)
  with t i assms show ?thesis
    by (simp add: attachments_block_def py_iter_def)
qed




lemma split_on_sep_two: "c \<in> set s \<Longrightarrow> \<exists>w v vs. split_on c s = w # v # vs"
proof (induction s)
  case Nil
  then show ?case by simp
next
  case (Cons x xs)
  show ?case
  proof (cases "x = c")
    case True
    then show ?thesis
      by (cases "split_on c xs") auto
  next
    case False
    with Cons obtain w v vs where "split_on c xs = w # v # vs"
      by auto
    with False show ?thesis
      by simp
  qed
qed

lemma last_split_on: "last (split_on c s) = rev (takeWhile (\<lambda>x. x \<noteq> c) (rev s))"
proof (induction s)
  case Nil
  then show ?case by simp
next
  case (Cons x xs)
  show ?case
  proof (cases "x = c")
    case True
    with Cons show ?thesis
      by (simp add: takeWhile_append)
  next
    case False
    show ?thesis
    proof (cases "c \<in> set xs")
      case True
      then obtain w v vs where "split_on c xs = w # v # vs"
        using split_on_sep_two by blast
      with Cons False True show ?thesis
        by (auto simp: takeWhile_append)
    next
      case in_none: False
      with False show ?thesis
        by (simp add: split_on_no_sep takeWhile_append)
    qed
  qed
qed

lemma ord_char_of: "n < 256 \<Longrightarrow> ord (char_of n) = n"
  by (simp add: ord_def)

lemma is_image_name_suffix:
  "is_image_name L n \<longleftrightarrow>
     rev (takeWhile (\<lambda>c. c \<noteq> CHR ''.'') (rev (py_lower L n))) \<in> set image_exts"
  by (simp add: is_image_name_def last_split_on)

lemma lower_upper_char: "lower_char (upper_char c) = lower_char c"
proof (cases "97 \<le> ord c \<and> ord c \<le> 122")
  case True
  then have r: "65 \<le> ord c - 32 \<and> ord c - 32 \<le> 90" and again: "ord c - 32 + 32 = ord c"
    and small: "ord c - 32 < 256"
    by arith+
  from small have o: "ord (char_of (ord c - 32)) = ord c - 32"
    by (rule ord_char_of)
  from True have "upper_char c = char_of (ord c - 32)"
    by (simp add: upper_char_def)
  with r o have "lower_char (upper_char c) = char_of (ord c - 32 + 32)"
    by (simp add: lower_char_def)
  also from again have "\<dots> = char_of (ord c)"
    by simp
  also have "\<dots> = c"
    by (simp add: ord_def)
  finally have "lower_char (upper_char c) = c" .
  moreover from True have "lower_char c = c"
    by (simp add: lower_char_def)
  ultimately show ?thesis
    by simp
next
  case False
  then have "upper_char c = c"
    by (auto simp: upper_char_def)
  then show ?thesis
    by simp
qed

lemma upper_char_ascii: "ord c < 128 \<Longrightarrow> ord (upper_char c) < 128"
proof (cases "97 \<le> ord c \<and> ord c \<le> 122")
  case True
  then have "ord c - 32 < 256" and small: "ord c - 32 < 128"
    by arith+
  then have "ord (char_of (ord c - 32)) = ord c - 32"
    by (simp add: ord_char_of)
  with True small show ?thesis
    by (simp add: upper_char_def)
next
  case False
  assume "ord c < 128"
  with False show ?thesis
    by (auto simp: upper_char_def)
qed

lemma is_image_name_upper:
  assumes "is_ascii n"
  shows "is_image_name L (py_upper L n) = is_image_name L n"
proof -
  from assms have "is_ascii (map upper_char n)"
    by (simp add: is_ascii_def list_all_iff upper_char_ascii)
  with assms have "py_lower L (py_upper L n) = py_lower L n"
    by (simp add: py_lower_def py_upper_def lower_upper_char comp_def)
  then show ?thesis
    by (simp add: is_image_name_def)
qed

text \<open>The loop over the attachments emits one link for each name the resolver returns.\<close>

lemma attachments_loop_names:
  "attachments_loop e root dst atts fs =
     py_bind (resolved_names root dst (attachment_refs atts) fs) (\<lambda>(names, fs').
       Inr (map (\<lambda>n. media_link e n '''') names, fs'))"
proof (induction atts arbitrary: fs)
  case Nil
  show ?case by simp
next
  case (Cons att atts)
  have skip: "attachments_loop e root dst (att # atts) fs = attachments_loop e root dst atts fs"
    if "\<And>a. att = JDict a \<Longrightarrow> \<not> truthy (dict_get a ''file'')"
  proof (cases att)
    case (JDict a)
    with that [of a] show ?thesis
      by (cases "attachments_loop e root dst atts fs") auto
  qed (cases "attachments_loop e root dst atts fs"; auto)+
  show ?case
  proof (cases "\<exists>a. att = JDict a \<and> truthy (dict_get a ''file'')")
    case False
    then have "attachment_refs (att # atts) = attachment_refs atts"
      by (cases att) auto
    with False skip Cons show ?thesis
      by auto
  next
    case True
    then obtain a where att: "att = JDict a" and t: "truthy (dict_get a ''file'')"
      by blast
    from t have item: "dict_item a ''file'' = Inr (dict_get a ''file'')"
      by (simp add: dict_item_get)
    show ?thesis
    proof (cases "copy_media_file (dict_get a ''file'') root dst fs")
      case (Inl err)
      with att t item show ?thesis
        by simp
    next
      case (Inr res)
      obtain copied fs1 where res: "res = (copied, fs1)"
        by (cases res)
      show ?thesis
      proof (cases "resolved_names root dst (attachment_refs atts) fs1")
        case inner: (Inl err)
        with att t item Inr res Cons [of fs1] show ?thesis
          by simp
      next
        case inner: (Inr res')
        obtain names fs2 where "res' = (names, fs2)"
          by (cases res')
        with inner att t item Inr res Cons [of fs1] show ?thesis
          by simp
      qed
    qed
  qed
qed

lemma attachments_block_names:
  assumes "dict_get m ''attachments'' = JList atts" and "atts \<noteq> []"
  shows "attachments_block e root dst m fs =
     py_bind (resolved_names root dst (attachment_refs atts) fs) (\<lambda>(names, fs').
       Inr (map (\<lambda>n. media_link e n '''') names, fs'))"
proof -
  from assms have "truthy (dict_get m ''attachments'')"
    and "dict_item m ''attachments'' = Inr (JList atts)"
    by (simp_all add: dict_item_get)
  then show ?thesis
    by (simp add: attachments_block_def py_iter_def attachments_loop_names)
qed

lemma resolved_names_nonempty:
  "resolved_names root dst vs fs = Inr (names, fs') \<Longrightarrow> [] \<notin> set names"
proof (induction vs arbitrary: fs names)
  case Nil
  then show ?case by simp
next
  case (Cons v vs)
  from Cons.prems obtain copied fs1 rest where
    "resolved_names root dst vs fs1 = Inr (rest, fs')"
    and names: "names = (if got_name copied then [the copied] else []) @ rest"
    by (auto simp: py_bind_eq_Inr)
  with Cons.IH have "[] \<notin> set rest"
    by simp
  with names show ?case
    by (auto simp: got_name_def split: option.splits)
qed

text \<open>
  C2, as amended. For a reference for which the resolver returns a non-empty name: under
  \<^verbatim>\<open>photo\<close> the block is an inline image element whatever the name; under \<^verbatim>\<open>file\<close>,
  \<^verbatim>\<open>document\<close> (a string, or an object with a \<^verbatim>\<open>file\<close>) and \<^verbatim>\<open>media\<close> (a string, or an
  object) it is an inline image element when the name counts as an image name and
  otherwise a link whose label is the caption of the key followed by the escaped name;
  under \<^verbatim>\<open>attachments\<close> every block is a link labelled with the escaped name alone, whatever
  the name and wherever the attachment stands in the list: the blocks of a list of
  attachments are these links for the names the resolver returns, in order. A name counts
  as an image name when the text after the last dot of its lower-case form (all of it when
  there is no dot) is one of the eight extensions; for a name of ASCII characters upper
  case changes nothing.
\<close>

theorem media_markup_by_key:
  "(\<forall>n fs'. copy_media_file (dict_get m ''photo'') root dst fs = Inr (Some n, fs') \<longrightarrow> n \<noteq> [] \<longrightarrow>
      photo_block e root dst m fs = Inr ([media_img e n ('' alt='photo'' @ [CHR 0x27])], fs'))
   \<and> (\<forall>n fs'. copy_media_file (dict_get m ''file'') root dst fs = Inr (Some n, fs') \<longrightarrow> n \<noteq> [] \<longrightarrow>
      file_block L e root dst m fs =
        Inr ([if is_image_name L n then media_img e n ('' alt='file'' @ [CHR 0x27])
              else media_link e n caption_file], fs'))
   \<and> (\<forall>s dd n fs'.
        (dict_get m ''document'' = JStr s
           \<and> copy_media_file (JStr s) root dst fs = Inr (Some n, fs')
         \<or> dict_get m ''document'' = JDict dd
           \<and> copy_media_file (dict_get dd ''file'') root dst fs = Inr (Some n, fs')) \<longrightarrow>
        n \<noteq> [] \<longrightarrow>
        document_block L e root dst m fs =
          Inr ([if is_image_name L n then media_img e n ''''
                else media_link e n caption_document], fs'))
   \<and> (\<forall>s md n fs'.
        (dict_get m ''media'' = JStr s
           \<and> copy_media_file (JStr s) root dst fs = Inr (Some n, fs')
         \<or> dict_get m ''media'' = JDict md
           \<and> copy_media_file (media_possible md) root dst fs = Inr (Some n, fs')) \<longrightarrow>
        n \<noteq> [] \<longrightarrow>
        media_block L e root dst m fs =
          Inr ([if is_image_name L n then media_img e n ''''
                else media_link e n caption_media], fs'))
   \<and> (\<forall>a n fs'. dict_get m ''attachments'' = JList [JDict a] \<longrightarrow>
        copy_media_file (dict_get a ''file'') root dst fs = Inr (Some n, fs') \<longrightarrow> n \<noteq> [] \<longrightarrow>
        attachments_block e root dst m fs = Inr ([media_link e n ''''], fs'))
   \<and> (\<forall>atts. dict_get m ''attachments'' = JList atts \<longrightarrow> atts \<noteq> [] \<longrightarrow>
        attachments_block e root dst m fs =
          py_bind (resolved_names root dst (attachment_refs atts) fs) (\<lambda>(names, fs').
            Inr (map (\<lambda>n. media_link e n '''') names, fs')))
   \<and> (\<forall>atts blocks fs'. dict_get m ''attachments'' = JList atts \<longrightarrow>
        attachments_block e root dst m fs = Inr (blocks, fs') \<longrightarrow>
        (\<forall>b\<in>set blocks. \<exists>n. n \<noteq> [] \<and> b = media_link e n ''''))
   \<and> (\<forall>n. is_image_name L n \<longleftrightarrow>
          rev (takeWhile (\<lambda>c. c \<noteq> CHR ''.'') (rev (py_lower L n)))
            \<in> {''jpg'', ''jpeg'', ''png'', ''gif'', ''webp'', ''bmp'', ''svg'', ''heic''})
   \<and> (\<forall>n. is_ascii n \<longrightarrow> py_lower L n = map lower_char n)
   \<and> (\<forall>n. is_ascii n \<longrightarrow> is_image_name L (py_upper L n) = is_image_name L n)
   \<and> (\<forall>n caption. media_link e n caption =
          (''<div class='media'><a href='' @ [CHR 0x27]) @ e @ ''/'' @ html_escape_str n @ ([CHR 0x27] @ '' target='_blank'>'')
            @ caption @ html_escape_str n @ ''</a></div>'')
   \<and> (\<forall>n alt. media_img e n alt =
          (''<div class='media'><a href='' @ [CHR 0x27]) @ e @ ''/'' @ html_escape_str n @ ([CHR 0x27] @ '' target='_blank'><img src='' @ [CHR 0x27])
            @ e @ ''/'' @ html_escape_str n @ [CHR 0x27] @ alt @ ''></a></div>'')"
proof -
  have att: "attachments_block e root dst m fs = Inr ([media_link e n ''''], fs')"
    if "dict_get m ''attachments'' = JList [JDict a]"
      and "copy_media_file (dict_get a ''file'') root dst fs = Inr (Some n, fs')" and "n \<noteq> []"
    for a n fs'
    using attachments_block_first [of m a "[]" root dst fs n fs' e "[]" fs'] that by simp
  have links: "\<forall>b\<in>set blocks. \<exists>n. n \<noteq> [] \<and> b = media_link e n ''''"
    if m: "dict_get m ''attachments'' = JList atts"
      and r: "attachments_block e root dst m fs = Inr (blocks, fs')"
    for atts blocks fs'
  proof (cases "atts = []")
    case True
    with m r show ?thesis
      by (simp add: attachments_block_def)
  next
    case False
    from r have "py_bind (resolved_names root dst (attachment_refs atts) fs) (\<lambda>(names, fs').
            Inr (map (\<lambda>n. media_link e n '''') names, fs')) = Inr (blocks, fs')"
      by (simp add: attachments_block_names [OF m False])
    then obtain names where "resolved_names root dst (attachment_refs atts) fs = Inr (names, fs')"
      and b: "blocks = map (\<lambda>n. media_link e n '''') names"
      by (auto simp: py_bind_eq_Inr)
    then have ne: "[] \<notin> set names"
      by (auto dest: resolved_names_nonempty)
    show ?thesis
    proof
      fix blk
      assume "blk \<in> set blocks"
      with b obtain n where "n \<in> set names" and "blk = media_link e n ''''"
        by auto
      with ne have "n \<noteq> [] \<and> blk = media_link e n ''''"
        by auto
      then show "\<exists>n. n \<noteq> [] \<and> blk = media_link e n ''''" ..
    qed
  qed
  have ext: "is_image_name L n \<longleftrightarrow>
          rev (takeWhile (\<lambda>c. c \<noteq> CHR ''.'') (rev (py_lower L n)))
            \<in> {''jpg'', ''jpeg'', ''png'', ''gif'', ''webp'', ''bmp'', ''svg'', ''heic''}" for n
    by (simp add: is_image_name_suffix image_exts_def)
  show ?thesis
  proof (intro conjI, goal_cases)
    case 6
    show ?case
      by (simp add: attachments_block_names)
  next
    case 7
    show ?case
      using links by blast
  next
    case 8
    show ?case
      using ext by blast
  qed (auto simp: photo_block_name file_block_name document_block_string document_block_object
          media_block_string media_block_object_name att by_extension_def py_lower_def
          is_image_name_upper media_link_def media_img_def)
qed

lemmas fs_eval = copy_media_file_def locate_def ensure_dir_def mkdir_parents.simps os_mkdir_def
  mkdir_exist_ok_def copy2_def open_write_def path_eval fs_inst_def Let_def

lemmas json_eval = dict_get_def dict_get_default_def dict_item_def as_dict_def py_or_def

lemma first_call_pdf:
  "copy_media_file (JStr ''doc.pdf'') (rel [''export'']) (rel [''out'', ''media'']) fs_inst =
     Inr (Some ''doc.pdf'',
          fs_inst(rel [''out''] \<mapsto> Dir, rel [''out'', ''media''] \<mapsto> Dir,
                  rel [''out'', ''media'', ''doc.pdf''] \<mapsto> File ''PDF''))"
  by (simp add: fs_eval)


text \<open>
  A reference that is falsy, or a path string the resolver finds nothing for, gives no
  block under any of the five keys, raises nothing and leaves the file system as it was.
\<close>

lemma copy_media_file_dangling:
  "dangling fs root v \<Longrightarrow> copy_media_file v root dst fs = Inr (None, fs)"
  by (cases v) (auto simp: dangling_def copy_media_file_def split: sum.splits)

lemma attachments_loop_dangling:
  assumes "\<forall>att\<in>set atts. \<forall>a. att = JDict a \<longrightarrow> dangling fs root (dict_get a ''file'')"
  shows "attachments_loop e root dst atts fs = Inr ([], fs)"
  using assms
proof (induction atts)
  case Nil
  then show ?case by simp
next
  case (Cons att atts)
  then have rest: "attachments_loop e root dst atts fs = Inr ([], fs)"
    by simp
  show ?case
  proof (cases att)
    case (JDict a)
    with Cons.prems have d: "dangling fs root (dict_get a ''file'')"
      by simp
    show ?thesis
    proof (cases "truthy (dict_get a ''file'')")
      case True
      then have "dict_item a ''file'' = Inr (dict_get a ''file'')"
        by (simp add: dict_item_get)
      with True JDict rest copy_media_file_dangling [OF d, of dst] show ?thesis
        by simp
    next
      case False
      with JDict rest show ?thesis
        by simp
    qed
  qed (simp_all add: rest)
qed

lemma unresolved_reference_emits_nothing:
  "dangling fs root (dict_get m ''photo'') \<Longrightarrow> photo_block e root dst m fs = Inr ([], fs)"
  "dangling fs root (dict_get m ''file'') \<Longrightarrow> file_block L e root dst m fs = Inr ([], fs)"
  "dangling fs root (dict_get m ''document'') \<Longrightarrow> document_block L e root dst m fs = Inr ([], fs)"
  "dict_get m ''document'' = JDict dd \<Longrightarrow> truthy (dict_get dd ''file'') \<Longrightarrow>
     dangling fs root (dict_get dd ''file'') \<Longrightarrow> document_block L e root dst m fs = Inr ([], fs)"
  "dangling fs root (dict_get m ''media'') \<Longrightarrow> media_block L e root dst m fs = Inr ([], fs)"
  "dict_get m ''media'' = JDict md \<Longrightarrow> dangling fs root (media_possible md) \<Longrightarrow>
     media_block L e root dst m fs = Inr ([], fs)"
  "dict_get m ''attachments'' = JList atts \<Longrightarrow>
     \<forall>att\<in>set atts. \<forall>a. att = JDict a \<longrightarrow> dangling fs root (dict_get a ''file'') \<Longrightarrow>
     attachments_block e root dst m fs = Inr ([], fs)"
proof -
  have item: "truthy (dict_get m k) \<Longrightarrow> dict_item m k = Inr (dict_get m k)" for k
    by (simp add: dict_item_get)
  show "dangling fs root (dict_get m ''photo'') \<Longrightarrow> photo_block e root dst m fs = Inr ([], fs)"
    by (simp add: photo_block_def item copy_media_file_dangling)
  show "dangling fs root (dict_get m ''file'') \<Longrightarrow> file_block L e root dst m fs = Inr ([], fs)"
    by (simp add: file_block_def item copy_media_file_dangling)
  show "dangling fs root (dict_get m ''document'') \<Longrightarrow>
          document_block L e root dst m fs = Inr ([], fs)"
    by (cases "dict_get m ''document''")
       (auto simp: document_block_def item copy_media_file_dangling dangling_def)
  show "dict_get m ''document'' = JDict dd \<Longrightarrow> truthy (dict_get dd ''file'') \<Longrightarrow>
     dangling fs root (dict_get dd ''file'') \<Longrightarrow> document_block L e root dst m fs = Inr ([], fs)"
    using item [of "''document''"]
    by (auto simp: document_block_def copy_media_file_dangling)
  show "dangling fs root (dict_get m ''media'') \<Longrightarrow> media_block L e root dst m fs = Inr ([], fs)"
    by (cases "dict_get m ''media''")
       (auto simp: media_block_def item copy_media_file_dangling dangling_def)
  show "dict_get m ''media'' = JDict md \<Longrightarrow> dangling fs root (media_possible md) \<Longrightarrow>
     media_block L e root dst m fs = Inr ([], fs)"
    using item [of "''media''"]
    by (auto simp: media_block_def Let_def copy_media_file_dangling)
  show "dict_get m ''attachments'' = JList atts \<Longrightarrow>
     \<forall>att\<in>set atts. \<forall>a. att = JDict a \<longrightarrow> dangling fs root (dict_get a ''file'') \<Longrightarrow>
     attachments_block e root dst m fs = Inr ([], fs)"
    using item [of "''attachments''"]
    by (auto simp: attachments_block_def py_iter_def attachments_loop_dangling)
qed

text \<open>
  C6, at a failing input. A message whose \<^verbatim>\<open>document\<close> is an object with an empty \<^verbatim>\<open>file\<close>
  hands the object itself to the resolver, which raises \<^verbatim>\<open>TypeError\<close> when it builds a
  path from it: nothing is written for this message nor for the one after it.
\<close>

theorem document_without_file_raises:
  "generate_html lib_inst
     [JDict [(''from'', JStr ''A''), (''text'', JStr ''one''),
             (''document'', JDict [(''file'', JStr '''')])],
      JDict [(''from'', JStr ''B''), (''text'', JStr ''two'')]]
     (rel [''out'', ''chat.html'']) (rel [''export'']) ''media'' fs_inst = Inl TypeError"
proof -
  have doc: "document_block L ''media'' (rel [''export'']) (rel [''out'', ''media''])
          [(''from'', JStr ''A''), (''text'', JStr ''one''),
           (''document'', JDict [(''file'', JStr '''')])] fs = Inl TypeError" for L fs
    by (simp add: document_block_def copy_media_file_def json_eval)
  have blocks: "media_blocks L ''media'' (rel [''export'']) (rel [''out'', ''media''])
          [(''from'', JStr ''A''), (''text'', JStr ''one''),
           (''document'', JDict [(''file'', JStr '''')])] fs = Inl TypeError" for L fs
    by (simp add: media_blocks_def doc photo_block_def file_block_def json_eval)
  have msg: "render_message lib_inst P ''media'' (rel [''export'']) (rel [''out'', ''media''])
          (JDict [(''from'', JStr ''A''), (''text'', JStr ''one''),
                  (''document'', JDict [(''file'', JStr '''')])]) fs = Inl TypeError" for P fs
    by (simp add: render_message_def blocks json_eval author_of_def iso_to_local_def
          py_fromisoformat_def py_strptime_def lib_inst_def fromisoformat_inst_def
          parse_wall_def parse_offset_def strptime_inst_def parse_text_field_def
          participants_get_def html_escape_def split: option.splits)
  have sorted: "py_sorted datetime_lt (get_date lib_inst)
          [JDict [(''from'', JStr ''A''), (''text'', JStr ''one''),
                  (''document'', JDict [(''file'', JStr '''')])],
           JDict [(''from'', JStr ''B''), (''text'', JStr ''two'')]] =
        Inr [JDict [(''from'', JStr ''A''), (''text'', JStr ''one''),
                  (''document'', JDict [(''file'', JStr '''')])],
           JDict [(''from'', JStr ''B''), (''text'', JStr ''two'')]]"
    by (simp add: py_sorted_def get_date_def json_eval datetime_lt_def)
  have parts: "\<exists>P. build_participants lib_inst
          [JDict [(''from'', JStr ''A''), (''text'', JStr ''one''),
                  (''document'', JDict [(''file'', JStr '''')])],
           JDict [(''from'', JStr ''B''), (''text'', JStr ''two'')]] Map.empty = Inr P"
    by (simp add: json_eval author_of_def)
  have dir: "\<exists>fs0. ensure_dir fs_inst (p_parent (rel [''out'', ''chat.html''])) = Inr fs0"
    by (simp add: fs_eval)
  have dst: "joinpath (p_parent (rel [''out'', ''chat.html''])) (Path ''media'')
               = rel [''out'', ''media'']"
    by (simp add: path_eval)
  from parts dir show ?thesis
    by (auto simp: generate_html_def Let_def sorted msg dst)
qed



text \<open>
  C2 as stated fails: a \<^verbatim>\<open>photo\<close> reference to the existing file \<^verbatim>\<open>doc.pdf\<close> is rendered as
  an inline image although \<^verbatim>\<open>pdf\<close> is no image extension, and an attachment \<^verbatim>\<open>img.jpg\<close> is
  rendered as a link although \<^verbatim>\<open>jpg\<close> is one.
\<close>

theorem extension_classification_counterexample:
  "photo_block ''media'' (rel [''export'']) (rel [''out'', ''media''])
     [(''photo'', JStr ''doc.pdf'')] fs_inst =
     Inr ([''<div class='media'><a href='media/doc.pdf' target='_blank'><img src='media/doc.pdf' alt='photo'></a></div>''],
          fs_inst(rel [''out''] \<mapsto> Dir, rel [''out'', ''media''] \<mapsto> Dir,
                  rel [''out'', ''media'', ''doc.pdf''] \<mapsto> File ''PDF''))
   \<and> \<not> is_image_name lib_inst ''doc.pdf''
   \<and> attachments_block ''media'' (rel [''export'']) (rel [''out'', ''media''])
       [(''attachments'', JList [JDict [(''file'', JStr ''img.jpg'')]])] fs_inst =
     Inr ([''<div class='media'><a href='media/img.jpg' target='_blank'>img.jpg</a></div>''],
          fs_inst(rel [''out''] \<mapsto> Dir, rel [''out'', ''media''] \<mapsto> Dir,
                  rel [''out'', ''media'', ''img.jpg''] \<mapsto> File ''JPEG''))
   \<and> is_image_name lib_inst ''img.jpg''"
proof -
  have "photo_block ''media'' (rel [''export'']) (rel [''out'', ''media''])
     [(''photo'', JStr ''doc.pdf'')] fs_inst =
     Inr ([media_img ''media'' ''doc.pdf'' ('' alt='photo'' @ [CHR 0x27])],
          fs_inst(rel [''out''] \<mapsto> Dir, rel [''out'', ''media''] \<mapsto> Dir,
                  rel [''out'', ''media'', ''doc.pdf''] \<mapsto> File ''PDF''))"
    by (rule photo_block_name) (simp_all add: first_call_pdf)
  moreover have "attachments_block ''media'' (rel [''export'']) (rel [''out'', ''media''])
       [(''attachments'', JList [JDict [(''file'', JStr ''img.jpg'')]])] fs_inst =
     Inr ([media_link ''media'' ''img.jpg'' ''''],
          fs_inst(rel [''out''] \<mapsto> Dir, rel [''out'', ''media''] \<mapsto> Dir,
                  rel [''out'', ''media'', ''img.jpg''] \<mapsto> File ''JPEG''))"
    by (rule attachments_block_first
          [where rest = "[]" and a = "[(''file'', JStr ''img.jpg'')]" and others = "[]"])
       (simp_all add: first_call)
  moreover have "\<not> is_image_name lib_inst ''doc.pdf''" "is_image_name lib_inst ''img.jpg''"
    by (simp_all add: ext_eval)
  ultimately show ?thesis
    by (simp add: media_img_def media_link_def html_escape_str_def esc_char_def)
qed

lemma second_call_jpg:
  "copy_media_file (JStr ''img.jpg'') (rel [''export'']) (rel [''out'', ''media''])
     (fs_inst(rel [''out''] \<mapsto> Dir, rel [''out'', ''media''] \<mapsto> Dir,
              rel [''out'', ''media'', ''doc.pdf''] \<mapsto> File ''PDF'')) =
     Inr (Some ''img.jpg'',
          fs_inst(rel [''out''] \<mapsto> Dir, rel [''out'', ''media''] \<mapsto> Dir,
                  rel [''out'', ''media'', ''doc.pdf''] \<mapsto> File ''PDF'',
                  rel [''out'', ''media'', ''img.jpg''] \<mapsto> File ''JPEG''))"
  by (simp add: fs_eval)

theorem media_markup_by_key_witness:
  "file_block lib_inst ''media'' (rel [''export'']) (rel [''out'', ''media''])
     [(''file'', JStr ''doc.pdf'')] fs_inst =
     Inr ([media_link ''media'' ''doc.pdf'' caption_file],
          fs_inst(rel [''out''] \<mapsto> Dir, rel [''out'', ''media''] \<mapsto> Dir,
                  rel [''out'', ''media'', ''doc.pdf''] \<mapsto> File ''PDF''))
   \<and> file_block lib_inst ''media'' (rel [''export'']) (rel [''out'', ''media''])
     [(''file'', JStr ''img.jpg'')] fs_inst =
     Inr ([media_img ''media'' ''img.jpg'' ('' alt='file'' @ [CHR 0x27])],
          fs_inst(rel [''out''] \<mapsto> Dir, rel [''out'', ''media''] \<mapsto> Dir,
                  rel [''out'', ''media'', ''img.jpg''] \<mapsto> File ''JPEG''))
   \<and> attachments_block ''media'' (rel [''export'']) (rel [''out'', ''media''])
     [(''attachments'', JList [JDict [(''file'', JStr ''doc.pdf'')], JStr ''note'',
                               JDict [(''file'', JStr ''img.jpg'')]])] fs_inst =
     Inr ([media_link ''media'' ''doc.pdf'' '''', media_link ''media'' ''img.jpg'' ''''],
          fs_inst(rel [''out''] \<mapsto> Dir, rel [''out'', ''media''] \<mapsto> Dir,
                  rel [''out'', ''media'', ''doc.pdf''] \<mapsto> File ''PDF'',
                  rel [''out'', ''media'', ''img.jpg''] \<mapsto> File ''JPEG''))
   \<and> is_image_name lib_inst ''PHOTO.JPeG''"
proof -
  let ?pdf = "fs_inst(rel [''out''] \<mapsto> Dir, rel [''out'', ''media''] \<mapsto> Dir,
                  rel [''out'', ''media'', ''doc.pdf''] \<mapsto> File ''PDF'')"
  let ?jpg = "fs_inst(rel [''out''] \<mapsto> Dir, rel [''out'', ''media''] \<mapsto> Dir,
                  rel [''out'', ''media'', ''img.jpg''] \<mapsto> File ''JPEG'')"
  let ?both = "fs_inst(rel [''out''] \<mapsto> Dir, rel [''out'', ''media''] \<mapsto> Dir,
                  rel [''out'', ''media'', ''doc.pdf''] \<mapsto> File ''PDF'',
                  rel [''out'', ''media'', ''img.jpg''] \<mapsto> File ''JPEG'')"
  let ?atts = "[JDict [(''file'', JStr ''doc.pdf'')], JStr ''note'',
                JDict [(''file'', JStr ''img.jpg'')]]"
  have ext: "\<not> is_image_name lib_inst ''doc.pdf''" "is_image_name lib_inst ''img.jpg''"
    by (simp_all add: ext_eval)
  have 1: "file_block lib_inst ''media'' (rel [''export'']) (rel [''out'', ''media''])
     [(''file'', JStr ''doc.pdf'')] fs_inst =
     Inr ([media_link ''media'' ''doc.pdf'' caption_file], ?pdf)"
    using media_markup_by_key
      [of "[(''file'', JStr ''doc.pdf'')]" "rel [''export'']" "rel [''out'', ''media'']" fs_inst
          "''media''" lib_inst,
       THEN conjunct2, THEN conjunct1, rule_format, of "''doc.pdf''" ?pdf]
      ext first_call_pdf
    by simp
  have 2: "file_block lib_inst ''media'' (rel [''export'']) (rel [''out'', ''media''])
     [(''file'', JStr ''img.jpg'')] fs_inst =
     Inr ([media_img ''media'' ''img.jpg'' ('' alt='file'' @ [CHR 0x27])], ?jpg)"
    using media_markup_by_key
      [of "[(''file'', JStr ''img.jpg'')]" "rel [''export'']" "rel [''out'', ''media'']" fs_inst
          "''media''" lib_inst,
       THEN conjunct2, THEN conjunct1, rule_format, of "''img.jpg''" ?jpg]
      ext first_call
    by simp
  have names: "resolved_names (rel [''export'']) (rel [''out'', ''media''])
      (attachment_refs ?atts) fs_inst = Inr ([''doc.pdf'', ''img.jpg''], ?both)"
    by (simp add: first_call_pdf second_call_jpg)
  have 3: "attachments_block ''media'' (rel [''export'']) (rel [''out'', ''media''])
     [(''attachments'', JList ?atts)] fs_inst =
     Inr ([media_link ''media'' ''doc.pdf'' '''', media_link ''media'' ''img.jpg'' ''''], ?both)"
    using media_markup_by_key
      [of "[(''attachments'', JList ?atts)]" "rel [''export'']" "rel [''out'', ''media'']"
          fs_inst "''media''" lib_inst,
       THEN conjunct2, THEN conjunct2, THEN conjunct2, THEN conjunct2, THEN conjunct2,
       THEN conjunct1, rule_format, of ?atts]
      names
    by simp
  have 4: "is_image_name lib_inst ''PHOTO.JPeG''"
    using media_markup_by_key
      [of "[]" "rel []" "rel []" fs_inst "''media''" lib_inst,
       THEN conjunct2, THEN conjunct2, THEN conjunct2, THEN conjunct2, THEN conjunct2,
       THEN conjunct2, THEN conjunct2, THEN conjunct1, rule_format, of "''PHOTO.JPeG''"]
    by (simp add: py_lower_def is_ascii_def lower_char_def char_eval)
  from 1 2 3 4 show ?thesis
    by simp
qed

section \<open>Properties of the document assembler\<close>

subsection \<open>Authors\<close>

lemma map_of_dict_delete:
  "map_of (dict_delete k d) k' = (if k' = k then None else map_of d k')"
  by (induction d) (auto simp: dict_delete_def)

lemma dict_delete_other [simp]:
  "k' \<noteq> k \<Longrightarrow> dict_get (dict_delete k d) k' = dict_get d k'"
  "k' \<noteq> k \<Longrightarrow> dict_get_default (dict_delete k d) k' v = dict_get_default d k' v"
  "k' \<noteq> k \<Longrightarrow> dict_item (dict_delete k d) k' = dict_item d k'"
  by (simp_all add: dict_get_def dict_get_default_def dict_item_def map_of_dict_delete)

lemma dict_delete_same [simp]: "dict_get (dict_delete k d) k = JNull"
  by (simp add: dict_get_def dict_get_default_def map_of_dict_delete)
















subsection \<open>Order of the messages\<close>

text \<open>
  The sort key of a message object is always defined. When no key carries a UTC offset,
  \<^verbatim>\<open>sorted\<close> returns a rearrangement of the messages that is ascending in the key and
  keeps the input order among equal keys.
\<close>

lemma get_date_total: "\<exists>k. get_date L (JDict d) = Inr k"
  by (simp add: get_date_def as_dict_def Let_def split: sum.splits)

lemma datetime_lt_naive:
  "dt_offset a = None \<Longrightarrow> dt_offset b = None \<Longrightarrow>
   datetime_lt a b = Inr (field_tuple a < field_tuple b)"
  by (simp add: datetime_lt_def)

lemma insort_lt_naive:
  assumes "dt_offset (fst x) = None" and "\<forall>y\<in>set ys. dt_offset (fst y) = None"
  shows "insort_lt datetime_lt x ys = Inr (insort_key (\<lambda>p. field_tuple (fst p)) x ys)"
  using assms by (induction ys) (auto simp: datetime_lt_naive not_less)

lemma sort_lt_naive:
  assumes "\<forall>x\<in>set xs. dt_offset (fst x) = None"
  shows "sort_lt datetime_lt xs = Inr (sort_key (\<lambda>p. field_tuple (fst p)) xs)"
  using assms
proof (induction xs)
  case Nil
  then show ?case by simp
next
  case (Cons x xs)
  then have "sort_lt datetime_lt xs = Inr (sort_key (\<lambda>p. field_tuple (fst p)) xs)"
    by simp
  moreover from Cons.prems
  have "insort_lt datetime_lt x (sort_key (\<lambda>p. field_tuple (fst p)) xs) =
          Inr (insort_key (\<lambda>p. field_tuple (fst p)) x (sort_key (\<lambda>p. field_tuple (fst p)) xs))"
    by (intro insort_lt_naive) simp_all
  ultimately show ?case
    by simp
qed

lemma map_result_length: "map_result f xs = Inr ys \<Longrightarrow> length ys = length xs"
  by (induction xs arbitrary: ys) (auto simp: py_bind_eq_Inr)

lemma sorted_naive_timestamps:
  assumes keys: "map_result (get_date L) ms = Inr ks"
    and naive: "\<forall>k\<in>set ks. dt_offset k = None"
  shows "\<exists>r. py_sorted datetime_lt (get_date L) ms = Inr (map snd r)
          \<and> mset r = mset (zip ks ms)
          \<and> sorted (map (\<lambda>p. field_tuple (fst p)) r)
          \<and> (\<forall>t. filter (\<lambda>p. field_tuple (fst p) = t) r
                  = filter (\<lambda>p. field_tuple (fst p) = t) (zip ks ms))"
proof -
  let ?f = "\<lambda>p :: datetime \<times> json. field_tuple (fst p)"
  from naive have "\<forall>x\<in>set (zip ks ms). dt_offset (fst x) = None"
    by (auto dest: set_zip_leftD)
  then have "sort_lt datetime_lt (zip ks ms) = Inr (sort_key ?f (zip ks ms))"
    by (rule sort_lt_naive)
  with keys have "py_sorted datetime_lt (get_date L) ms = Inr (map snd (sort_key ?f (zip ks ms)))"
    by (simp add: py_sorted_def)
  moreover have "filter (\<lambda>p. ?f p = t) (sort_key ?f (zip ks ms))
                  = filter (\<lambda>p. ?f p = t) (zip ks ms)" for t
    by (rule sort_key_stable)
  ultimately show ?thesis
    by (intro exI [of _ "sort_key ?f (zip ks ms)"]) simp
qed

text \<open>
  C1, at a failing input. Of two messages, the first carries a timestamp with a UTC
  offset and the second no date at all. The sort keys are an aware value and the naive
  \<^verbatim>\<open>datetime.min\<close>; comparing them raises \<^verbatim>\<open>TypeError\<close> inside \<^verbatim>\<open>sorted\<close>, and nothing is
  rendered.
\<close>

theorem mixed_offsets_abort_sort:
  "get_date lib_inst
     (JDict [(''from'', JStr ''A''), (''date'', JStr ''2024-01-01T10:00:00+03:00''),
             (''text'', JStr ''one'')]) =
     Inr \<lparr>dt_year = 2024, dt_month = 1, dt_day = 1, dt_hour = 10, dt_minute = 0,
          dt_second = 0, dt_micro = 0, dt_offset = Some 10800000000\<rparr>
   \<and> get_date lib_inst (JDict [(''from'', JStr ''B''), (''text'', JStr ''two'')]) = Inr datetime_min
   \<and> generate_html lib_inst
       [JDict [(''from'', JStr ''A''), (''date'', JStr ''2024-01-01T10:00:00+03:00''),
               (''text'', JStr ''one'')],
        JDict [(''from'', JStr ''B''), (''text'', JStr ''two'')]]
       (rel [''out'', ''chat.html'']) (rel [''export'']) ''media'' fs_inst = Inl TypeError"
proof -
  let ?a = "JDict [(''from'', JStr ''A''), (''date'', JStr ''2024-01-01T10:00:00+03:00''),
             (''text'', JStr ''one'')]"
  let ?b = "JDict [(''from'', JStr ''B''), (''text'', JStr ''two'')]"
  have iso: "fromisoformat_inst ''2024-01-01T10:00:00+03:00'' =
      Some \<lparr>dt_year = 2024, dt_month = 1, dt_day = 1, dt_hour = 10, dt_minute = 0,
          dt_second = 0, dt_micro = 0, dt_offset = Some 10800000000\<rparr>"
    by (simp add: fromisoformat_inst_def parse_wall_def parse_offset_def field_def digit_val_def
          ord_def days_in_month_def is_leap_def)
  have a: "get_date lib_inst ?a =
     Inr \<lparr>dt_year = 2024, dt_month = 1, dt_day = 1, dt_hour = 10, dt_minute = 0,
          dt_second = 0, dt_micro = 0, dt_offset = Some 10800000000\<rparr>"
    by (simp add: get_date_def json_eval py_fromisoformat_def lib_inst_def iso)
  have b: "get_date lib_inst ?b = Inr datetime_min"
    by (simp add: get_date_def json_eval)
  have sorted: "py_sorted datetime_lt (get_date lib_inst) [?a, ?b] = Inl TypeError"
    by (simp add: py_sorted_def a b datetime_lt_def datetime_min_def)
  have parts: "\<exists>P. build_participants lib_inst [?a, ?b] Map.empty = Inr P"
    by (simp add: json_eval author_of_def)
  have dir: "\<exists>fs0. ensure_dir fs_inst (p_parent (rel [''out'', ''chat.html''])) = Inr fs0"
    by (simp add: fs_eval)
  from parts dir have "generate_html lib_inst [?a, ?b] (rel [''out'', ''chat.html''])
      (rel [''export'']) ''media'' fs_inst = Inl TypeError"
    by (auto simp: generate_html_def Let_def sorted)
  with a b show ?thesis
    by simp
qed

end

